theory Spec2Isabelle
  imports Complex_Main "HOL-Library.Word" "HOL-Library.Option_ord"
begin

section \<open>Errors of the embedded code\<close>

text \<open>
  The C++ of this repository fails in four ways that the functions below can reach: a
  standard-library range error (\<open>std::string::substr\<close> past the end), a failed numeric
  conversion (\<open>std::stoi\<close> on a non-number), a floating-point to integer cast whose value
  the target type cannot hold (undefined behaviour), and the dereference of an empty
  \<open>std::shared_ptr\<close>. Each is a value of \<open>error\<close>; a function that can fail returns
  \<open>error + 'a\<close> with \<open>Inl\<close> for the failure.
\<close>

datatype error = OutOfRange | InvalidArgument | UndefinedConversion | NullDereference

section \<open>SamplerSound: MIDI note names (SampledInstrumentNode.h)\<close>

text \<open>The table both conversions declare locally.\<close>

definition midiTranslationArray :: "string list" where
  "midiTranslationArray =
     [''C'', ''C#'', ''D'', ''D#'', ''E'', ''F'', ''F#'', ''G'', ''G#'', ''A'', ''A#'', ''B'']"

text \<open>\<open>::toupper\<close> in the C locale: the letters a to z (97 to 122) move down by 32.\<close>

definition toupper :: "char \<Rightarrow> char" where
  "toupper c =
     (let n = (of_char c :: nat) in if 97 \<le> n \<and> n \<le> 122 then char_of (n - 32) else c)"

text \<open>\<open>std::replace(first, last, old, new)\<close> over a whole string.\<close>

definition replace :: "char \<Rightarrow> char \<Rightarrow> string \<Rightarrow> string" where
  "replace old new xs = map (\<lambda>x. if x = old then new else x) xs"

text \<open>
  \<open>std::stoi\<close> on the one-character string that \<open>substr(length - 1, 1)\<close> returns: a digit
  converts, anything else (a letter, a sign or a blank alone) throws
  \<open>std::invalid_argument\<close>.
\<close>

definition stoi :: "char \<Rightarrow> error + int" where
  "stoi c =
     (let n = (of_char c :: nat) in
      if 48 \<le> n \<and> n \<le> 57 then Inr (int n - 48) else Inl InvalidArgument)"

text \<open>
  The search loop of \<open>getMIDIFromNoteString\<close>: \<open>notePos\<close> starts at \<open>-1\<close> and becomes the
  index of the first table entry equal to the note string.
\<close>

fun findNotePos :: "string \<Rightarrow> string list \<Rightarrow> int \<Rightarrow> int" where
  "findNotePos noteString [] i = - 1"
| "findNotePos noteString (x # xs) i =
     (if noteString = x then i else findNotePos noteString xs (i + 1))"

text \<open>
  \<open>getMIDIFromNoteString\<close>. On the empty string \<open>length() - 1\<close> wraps and \<open>substr\<close> throws
  \<open>std::out_of_range\<close>. The octave is the last character alone; the rest, upper-cased and
  with \<open>S\<close> turned into \<open>#\<close>, is looked up in the table. The result
  \<open>uint8_t((octave * 12.0) + notePos)\<close> is a cast from \<open>double\<close>: it lies between \<open>-1\<close> and
  \<open>119\<close>, and the cast of \<open>-1.0\<close> is undefined.
\<close>

definition getMIDIFromNoteString :: "string \<Rightarrow> error + 8 word" where
  "getMIDIFromNoteString noteName =
     (if noteName = [] then Inl OutOfRange
      else case stoi (last noteName) of
        Inl e \<Rightarrow> Inl e
      | Inr octave \<Rightarrow>
          (let noteString = replace (CHR ''S'') (CHR ''#'') (map toupper (butlast noteName));
               notePos = findNotePos noteString midiTranslationArray 0;
               v = octave * 12 + notePos
           in if v < 0 then Inl UndefinedConversion else Inr (word_of_int v)))"

text \<open>\<open>std::to_string(int)\<close>: decimal digits, with a minus sign for a negative number.\<close>

fun digits :: "nat \<Rightarrow> string" where
  "digits n =
     (if n < 10 then [char_of (48 + n)] else digits (n div 10) @ [char_of (48 + n mod 10)])"

definition to_string :: "int \<Rightarrow> string" where
  "to_string i = (if i < 0 then CHR ''-'' # digits (nat (- i)) else digits (nat i))"

text \<open>
  \<open>getNoteStringFromMIDI\<close>: the octave is \<open>int(note / 12) - 1\<close>, the position in the octave
  \<open>note % 12\<close> (always a valid index), and \<open>#\<close> is written \<open>S\<close>.
\<close>

definition getNoteStringFromMIDI :: "8 word \<Rightarrow> string" where
  "getNoteStringFromMIDI note =
     (let octave = int (unat note div 12) - 1;
          positionInOctave = unat note mod 12;
          originalNote = replace (CHR ''#'') (CHR ''S'') (midiTranslationArray ! positionInOctave)
      in originalNote @ to_string octave)"

section \<open>AudioContext: data (AudioContext.cpp)\<close>

text \<open>
  An \<open>AudioNode\<close> object is named by its address, a \<open>node\<close>; a
  \<open>std::shared_ptr<AudioNode>\<close> is a \<open>ptr\<close>, \<open>None\<close> when it is empty. A port is a node
  with the index the source passes to \<open>input(i)\<close> or \<open>output(i)\<close>.
\<close>

type_synonym node = nat
type_synonym ptr = "node option"
type_synonym port = "node \<times> nat"

text \<open>
  A C++ \<open>float\<close> as far as its comparisons go: a real number, an infinity or a NaN. Every
  comparison with a NaN is false, so \<open>!=\<close> with a NaN is true.
\<close>

datatype float = Finite real | PosInf | NegInf | NaN

fun float_le :: "float \<Rightarrow> float \<Rightarrow> bool" where
  "float_le NaN y = False"
| "float_le x NaN = False"
| "float_le NegInf y = True"
| "float_le x PosInf = True"
| "float_le (Finite a) (Finite b) = (a \<le> b)"
| "float_le x y = False"

definition float_ge :: "float \<Rightarrow> float \<Rightarrow> bool" where
  "float_ge x y = float_le y x"

fun float_eq :: "float \<Rightarrow> float \<Rightarrow> bool" where
  "float_eq NaN y = False"
| "float_eq x NaN = False"
| "float_eq x y = (x = y)"

text \<open>The two exception codes the file names (their enumeration is in ExceptionCodes.h).\<close>

datatype ExceptionCode = NO_ERR | SYNTAX_ERR

text \<open>
  The two kinds of queued request. Their declarations are in AudioContext.h; the members
  are the ones \<open>update\<close> reads (\<open>i.fromInput\<close>, \<open>i.toOutput\<close>, \<open>i.from\<close>, \<open>i.to\<close>,
  \<open>i.connect\<close>), filled in the order in which \<open>connect\<close> and \<open>disconnect\<close> pass them to the
  constructor.
\<close>

record PendingConnection =
  pc_fromInput :: "port option"
  pc_toOutput :: "port option"
  pc_connect :: bool

record PendingNodeConnection =
  nc_from :: ptr
  nc_to :: ptr
  nc_connect :: bool

text \<open>
  The members of \<open>AudioContext\<close> that the file reads or writes; the class is declared in
  AudioContext.h. The counters are C++ \<open>int\<close>s. \<open>m_automaticPullNodes\<close> is used through
  \<open>find\<close>, \<open>insert\<close>, \<open>erase\<close> and iteration and is taken to be a \<open>std::set\<close> of node
  pointers, iterated in ascending order of address; the other containers are vectors.
  \<open>m_renderTarget\<close> records the three arguments of \<open>AudioBuffer::create\<close>. The listener,
  the decoder and the HRTF loader handle are collaborators outside the graph engine and
  are left out.
\<close>

record AudioContext =
  m_isStopScheduled :: bool
  m_isInitialized :: bool
  m_isAudioThreadFinished :: bool
  m_destinationNode :: ptr
  m_isDeletionScheduled :: bool
  m_automaticPullNodesNeedUpdating :: bool
  m_connectionCount :: "32 word"
  m_isOfflineContext :: bool
  m_activeSourceCount :: "32 word"
  m_renderTarget :: "(32 word \<times> 64 word \<times> float) option"
  m_referencedNodes :: "ptr list"
  m_finishedNodes :: "ptr list"
  m_nodesMarkedForDeletion :: "ptr list"
  m_nodesToDelete :: "ptr list"
  m_automaticPullNodes :: "ptr set"
  m_renderingAutomaticPullNodes :: "ptr list"
  automaticSources :: "ptr list"
  pendingConnections :: "PendingConnection list"
  pendingNodeConnections :: "PendingNodeConnection list"

text \<open>
  \<open>update\<close> and the render hooks also write into the node objects the context points to.
  A \<open>graph\<close> is the context together with that part of the heap:
  \<open>m_connectionRefCount\<close> is the \<open>AudioNode\<close> member that \<open>update\<close> increments and
  decrements atomically (a 32-bit \<open>int\<close>, which wraps; \<open>sint\<close> reads it), \<open>hasFinished\<close> is
  what \<open>AudioScheduledSourceNode::hasFinished()\<close> answers, and the last three fields are
  the wiring kept by the node classes, whose code is not part of these sources: the
  edges from output ports to input junctions, the junctions marked dirty, and the nodes
  whose outputs are enabled.
\<close>

record graph = AudioContext +
  m_connectionRefCount :: "node \<Rightarrow> 32 word"
  hasFinished :: "node \<Rightarrow> bool"
  edges :: "(port \<times> port) set"
  dirtyJunctions :: "port set"
  outputsEnabled :: "node \<Rightarrow> bool"

section \<open>AudioContext: creation\<close>

definition isSampleRateRangeGood :: "float \<Rightarrow> bool" where
  "isSampleRateRangeGood sampleRate \<longleftrightarrow>
     float_ge sampleRate (Finite 44100) \<and> float_le sampleRate (Finite 96000)"

definition MaxHardwareContexts :: "32 word" where
  "MaxHardwareContexts = 4"

text \<open>The constructor for rendering to the audio hardware: its initialiser list.\<close>

definition newAudioContext :: AudioContext where
  "newAudioContext =
     \<lparr> m_isStopScheduled = False, m_isInitialized = False, m_isAudioThreadFinished = False,
       m_destinationNode = None, m_isDeletionScheduled = False,
       m_automaticPullNodesNeedUpdating = False, m_connectionCount = 0,
       m_isOfflineContext = False, m_activeSourceCount = 0, m_renderTarget = None,
       m_referencedNodes = [], m_finishedNodes = [], m_nodesMarkedForDeletion = [],
       m_nodesToDelete = [], m_automaticPullNodes = {}, m_renderingAutomaticPullNodes = [],
       automaticSources = [], pendingConnections = [], pendingNodeConnections = [] \<rparr>"

text \<open>
  The constructor for offline rendering. Its initialiser list leaves
  \<open>m_isDeletionScheduled\<close> out, so the member holds whatever the storage held: the
  parameter \<open>indeterminate\<close>.
\<close>

definition newOfflineAudioContext ::
  "bool \<Rightarrow> 32 word \<Rightarrow> 64 word \<Rightarrow> float \<Rightarrow> AudioContext" where
  "newOfflineAudioContext indeterminate numberOfChannels numberOfFrames sampleRate =
     \<lparr> m_isStopScheduled = False, m_isInitialized = False, m_isAudioThreadFinished = False,
       m_destinationNode = None, m_isDeletionScheduled = indeterminate,
       m_automaticPullNodesNeedUpdating = False, m_connectionCount = 0,
       m_isOfflineContext = True, m_activeSourceCount = 0,
       m_renderTarget = Some (numberOfChannels, numberOfFrames, sampleRate),
       m_referencedNodes = [], m_finishedNodes = [], m_nodesMarkedForDeletion = [],
       m_nodesToDelete = [], m_automaticPullNodes = {}, m_renderingAutomaticPullNodes = [],
       automaticSources = [], pendingConnections = [], pendingNodeConnections = [] \<rparr>"

text \<open>
  \<open>AudioContext::create\<close> reads the static \<open>s_hardwareContextCount\<close> (a signed
  comparison of two \<open>int\<close>s) and returns a null pointer, \<open>None\<close>, at the limit. It neither
  reads nor writes its \<open>ExceptionCode&\<close>.
\<close>

definition create :: "32 word \<Rightarrow> AudioContext option" where
  "create s_hardwareContextCount =
     (if MaxHardwareContexts \<le>s s_hardwareContextCount then None else Some newAudioContext)"

text \<open>
  \<open>AudioContext::createOfflineContext\<close>. \<open>loader\<close> is what \<open>HRTFDatabaseLoader::loader()\<close>
  returns: \<open>None\<close> when no loader exists, else its \<open>databaseSampleRate()\<close>.
  \<open>numberOfChannels\<close> is \<open>unsigned\<close>. The result is the exception code after the call and
  the pointer returned.
\<close>

definition createOfflineContext ::
  "float option \<Rightarrow> bool \<Rightarrow> 32 word \<Rightarrow> 64 word \<Rightarrow> float \<Rightarrow> ExceptionCode
     \<Rightarrow> ExceptionCode \<times> AudioContext option" where
  "createOfflineContext loader indeterminate numberOfChannels numberOfFrames sampleRate ec =
     (if 10 < numberOfChannels \<or> \<not> isSampleRateRangeGood sampleRate
         \<or> (case loader of
               None \<Rightarrow> False
             | Some databaseSampleRate \<Rightarrow> \<not> float_eq databaseSampleRate sampleRate)
      then (SYNTAX_ERR, None)
      else (ec, Some (newOfflineAudioContext indeterminate numberOfChannels numberOfFrames
                        sampleRate)))"

text \<open>
  The graph a fresh hardware context starts with: no node has a connection reference, has
  finished or is wired.
\<close>

definition emptyGraph :: graph where
  "emptyGraph =
     AudioContext.extend newAudioContext
       (graph.fields (\<lambda>_. 0) (\<lambda>_. False) {} {} (\<lambda>_. False))"

section \<open>AudioContext: the reference list\<close>

text \<open>
  \<open>refNode\<close> appends without looking for the node; \<open>derefNode\<close> erases the first entry
  equal to the node and stops; \<open>derefFinishedSourceNodes\<close> does that for every entry of
  \<open>m_finishedNodes\<close> in turn and clears the list. The \<open>ASSERT\<close>s of the file are debug-build
  checks and are no part of the model.
\<close>

definition refNode :: "ptr \<Rightarrow> 'a AudioContext_scheme \<Rightarrow> 'a AudioContext_scheme" where
  "refNode node c = c\<lparr>m_referencedNodes := m_referencedNodes c @ [node]\<rparr>"

definition derefNode :: "ptr \<Rightarrow> 'a AudioContext_scheme \<Rightarrow> 'a AudioContext_scheme" where
  "derefNode node c = c\<lparr>m_referencedNodes := remove1 node (m_referencedNodes c)\<rparr>"

definition derefFinishedSourceNodes :: "'a AudioContext_scheme \<Rightarrow> 'a AudioContext_scheme" where
  "derefFinishedSourceNodes c =
     (fold derefNode (m_finishedNodes c) c)\<lparr>m_finishedNodes := []\<rparr>"

text \<open>
  \<open>notifyNodeFinishedProcessing\<close>: the first referenced entry that points to the node is
  pushed on \<open>m_finishedNodes\<close>; a node that is not referenced changes nothing.
\<close>

definition notifyNodeFinishedProcessing ::
  "ptr \<Rightarrow> 'a AudioContext_scheme \<Rightarrow> 'a AudioContext_scheme" where
  "notifyNodeFinishedProcessing node c =
     (if node \<in> set (m_referencedNodes c)
      then c\<lparr>m_finishedNodes := m_finishedNodes c @ [node]\<rparr>
      else c)"

section \<open>The node classes' side of the wiring\<close>

text \<open>
  Modelled from the spec: \<open>AudioNodeInput::connect\<close> (AudioNodeInput.cpp is not among the
  sources). The spec's junction "holds the set of contributing output edges", its dirty
  flag is "set on any edge add/remove", and connecting an edge that exists changes
  nothing. The first argument is the input junction, the second the output.
\<close>

definition AudioNodeInput_connect :: "port option \<Rightarrow> port option \<Rightarrow> graph \<Rightarrow> graph" where
  "AudioNodeInput_connect junction toOutput s =
     (case (junction, toOutput) of
        (Some j, Some out) \<Rightarrow>
          if (out, j) \<in> edges s then s
          else s\<lparr>edges := insert (out, j) (edges s),
                 dirtyJunctions := insert j (dirtyJunctions s)\<rparr>
      | _ \<Rightarrow> s)"

text \<open>
  Modelled from the spec: \<open>AudioNodeInput::disconnect\<close> (AudioNodeInput.cpp is not among
  the sources). Removing an edge marks its junction dirty; "disconnect on a non-existent
  edge is a no-op".
\<close>

definition AudioNodeInput_disconnect :: "port option \<Rightarrow> port option \<Rightarrow> graph \<Rightarrow> graph" where
  "AudioNodeInput_disconnect junction toOutput s =
     (case (junction, toOutput) of
        (Some j, Some out) \<Rightarrow>
          if (out, j) \<in> edges s
          then s\<lparr>edges := edges s - {(out, j)},
                 dirtyJunctions := insert j (dirtyJunctions s)\<rparr>
          else s
      | _ \<Rightarrow> s)"

text \<open>
  Modelled from the spec: \<open>AudioNodeOutput::disconnectAll\<close> (AudioNodeOutput.cpp is not
  among the sources), the spec's \<open>requestDisconnectAll\<close>: every edge that leaves the output
  is removed and its junction marked dirty.
\<close>

definition AudioNodeOutput_disconnectAll :: "port option \<Rightarrow> graph \<Rightarrow> graph" where
  "AudioNodeOutput_disconnectAll toOutput s =
     (case toOutput of
        None \<Rightarrow> s
      | Some out \<Rightarrow>
          s\<lparr>edges := {e \<in> edges s. fst e \<noteq> out},
            dirtyJunctions := dirtyJunctions s \<union> snd ` {e \<in> edges s. fst e = out}\<rparr>)"

text \<open>
  Modelled from the spec: \<open>AudioNode::disconnect(context, outputIndex, ec)\<close> (AudioNode.cpp
  is not among the sources): all edges of that output of the node are disconnected.
\<close>

definition AudioNode_disconnect :: "node \<Rightarrow> nat \<Rightarrow> graph \<Rightarrow> graph" where
  "AudioNode_disconnect n outputIndex s =
     AudioNodeOutput_disconnectAll (Some (n, outputIndex)) s"

text \<open>
  Modelled from the spec: \<open>AudioNode::enableOutputsIfNecessary\<close> (AudioNode.cpp is not
  among the sources): a connect "enables output production on both if it was previously
  disabled".
\<close>

definition enableOutputsIfNecessary :: "node \<Rightarrow> graph \<Rightarrow> graph" where
  "enableOutputsIfNecessary n s = s\<lparr>outputsEnabled := (outputsEnabled s)(n := True)\<rparr>"

text \<open>
  Modelled from the spec: \<open>AudioNode::disableOutputsIfNecessary\<close> (AudioNode.cpp is not
  among the sources). The spec calls the disconnect "the mirror operation" of the
  connect: a node left without a positive connection reference count stops producing
  output.
\<close>

definition disableOutputsIfNecessary :: "node \<Rightarrow> graph \<Rightarrow> graph" where
  "disableOutputsIfNecessary n s =
     (if sint (m_connectionRefCount s n) \<le> 0
      then s\<lparr>outputsEnabled := (outputsEnabled s)(n := False)\<rparr>
      else s)"

text \<open>
  Modelled from the spec: \<open>AudioSummingJunction::handleDirtyAudioSummingJunctions\<close>
  (AudioSummingJunction.cpp is not among the sources): the render path resolves every
  dirty junction, which clears the flag.
\<close>

definition handleDirtyAudioSummingJunctions :: "graph \<Rightarrow> graph" where
  "handleDirtyAudioSummingJunctions s = s\<lparr>dirtyJunctions := {}\<rparr>"

text \<open>
  Modelled from the spec: \<open>atomicIncrement\<close> and \<open>atomicDecrement\<close> (wtf/Atomics.h is
  not among the sources), applied to \<open>&n->m_connectionRefCount\<close>: a connect "increments
  both endpoints' connection-reference-count", a disconnect decrements them. The
  counter is a 32-bit \<open>int\<close> and the addition wraps.
\<close>

definition atomicIncrement :: "node \<Rightarrow> graph \<Rightarrow> graph" where
  "atomicIncrement n s =
     s\<lparr>m_connectionRefCount := (m_connectionRefCount s)(n := m_connectionRefCount s n + 1)\<rparr>"

definition atomicDecrement :: "node \<Rightarrow> graph \<Rightarrow> graph" where
  "atomicDecrement n s =
     s\<lparr>m_connectionRefCount := (m_connectionRefCount s)(n := m_connectionRefCount s n - 1)\<rparr>"

section \<open>AudioContext: submitting requests\<close>

text \<open>
  The five overloads of \<open>connect\<close> and \<open>disconnect\<close> only append to a queue.
  \<open>disconnect_node\<close> is \<open>disconnect(from)\<close>: it stores the node as \<open>from\<close> and an empty
  pointer as \<open>to\<close>. \<open>connect_ports\<close> and \<open>disconnect_output\<close> are the overloads on an input
  and an output.
\<close>

definition connect :: "ptr \<Rightarrow> ptr \<Rightarrow> 'a AudioContext_scheme \<Rightarrow> 'a AudioContext_scheme" where
  "connect from_node to_node c =
     c\<lparr>pendingNodeConnections := pendingNodeConnections c @
         [\<lparr>nc_from = from_node, nc_to = to_node, nc_connect = True\<rparr>]\<rparr>"

definition disconnect :: "ptr \<Rightarrow> ptr \<Rightarrow> 'a AudioContext_scheme \<Rightarrow> 'a AudioContext_scheme" where
  "disconnect from_node to_node c =
     c\<lparr>pendingNodeConnections := pendingNodeConnections c @
         [\<lparr>nc_from = from_node, nc_to = to_node, nc_connect = False\<rparr>]\<rparr>"

definition disconnect_node :: "ptr \<Rightarrow> 'a AudioContext_scheme \<Rightarrow> 'a AudioContext_scheme" where
  "disconnect_node from_node c =
     c\<lparr>pendingNodeConnections := pendingNodeConnections c @
         [\<lparr>nc_from = from_node, nc_to = None, nc_connect = False\<rparr>]\<rparr>"

definition connect_ports ::
  "port option \<Rightarrow> port option \<Rightarrow> 'a AudioContext_scheme \<Rightarrow> 'a AudioContext_scheme" where
  "connect_ports fromInput toOutput c =
     c\<lparr>pendingConnections := pendingConnections c @
         [\<lparr>pc_fromInput = fromInput, pc_toOutput = toOutput, pc_connect = True\<rparr>]\<rparr>"

definition disconnect_output ::
  "port option \<Rightarrow> 'a AudioContext_scheme \<Rightarrow> 'a AudioContext_scheme" where
  "disconnect_output toOutput c =
     c\<lparr>pendingConnections := pendingConnections c @
         [\<lparr>pc_fromInput = None, pc_toOutput = toOutput, pc_connect = False\<rparr>]\<rparr>"

section \<open>AudioContext::update\<close>

text \<open>The body of the first loop of \<open>update\<close>, over \<open>pendingConnections\<close>.\<close>

definition applyPendingConnection :: "PendingConnection \<Rightarrow> graph \<Rightarrow> graph" where
  "applyPendingConnection i s =
     (if pc_connect i then AudioNodeInput_connect (pc_fromInput i) (pc_toOutput i) s
      else AudioNodeOutput_disconnectAll (pc_toOutput i) s)"

text \<open>
  The three branches of the second loop, for pointers that are not null, statement by
  statement. The connect branch links the output of \<open>from\<close> to the input of \<open>to\<close>; the
  two-node disconnect branch passes \<open>i.from->input(0)\<close> and \<open>i.to->output(0)\<close>, the input
  of \<open>from\<close> and the output of \<open>to\<close>.
\<close>

definition connectNodes :: "node \<Rightarrow> node \<Rightarrow> graph \<Rightarrow> graph" where
  "connectNodes f t s =
     (let s = AudioNodeInput_connect (Some (t, 0)) (Some (f, 0)) s;
          s = refNode (Some f) s;
          s = refNode (Some t) s;
          s = atomicIncrement f s;
          s = atomicIncrement t s;
          s = enableOutputsIfNecessary f s;
          s = enableOutputsIfNecessary t s
      in s)"

definition disconnectAllOf :: "node \<Rightarrow> graph \<Rightarrow> graph" where
  "disconnectAllOf t s =
     (let s = atomicDecrement t s;
          s = AudioNode_disconnect t 0 s;
          s = disableOutputsIfNecessary t s
      in s)"

definition disconnectNodes :: "node \<Rightarrow> node \<Rightarrow> graph \<Rightarrow> graph" where
  "disconnectNodes f t s =
     (let s = atomicDecrement f s;
          s = atomicDecrement t s;
          s = AudioNodeInput_disconnect (Some (f, 0)) (Some (t, 0)) s;
          s = derefNode (Some f) s;
          s = derefNode (Some t) s;
          s = disableOutputsIfNecessary f s;
          s = disableOutputsIfNecessary t s
      in s)"

text \<open>
  The body of the second loop. Every branch dereferences the pointers it uses: the
  connect branch both, the branch for an empty \<open>i.from\<close> only \<open>i.to\<close>, the last branch
  both.
\<close>

definition applyPendingNodeConnection ::
  "PendingNodeConnection \<Rightarrow> graph \<Rightarrow> error + graph" where
  "applyPendingNodeConnection i s =
     (if nc_connect i then
        (case (nc_from i, nc_to i) of
           (Some f, Some t) \<Rightarrow> Inr (connectNodes f t s)
         | _ \<Rightarrow> Inl NullDereference)
      else
        (case nc_from i of
           None \<Rightarrow>
             (case nc_to i of
                None \<Rightarrow> Inl NullDereference
              | Some t \<Rightarrow> Inr (disconnectAllOf t s))
         | Some f \<Rightarrow>
             (case nc_to i of
                None \<Rightarrow> Inl NullDereference
              | Some t \<Rightarrow> Inr (disconnectNodes f t s))))"

fun applyPendingNodeConnections ::
  "PendingNodeConnection list \<Rightarrow> graph \<Rightarrow> error + graph" where
  "applyPendingNodeConnections [] s = Inr s"
| "applyPendingNodeConnections (i # rest) s =
     (case applyPendingNodeConnection i s of
        Inl e \<Rightarrow> Inl e
      | Inr s' \<Rightarrow> applyPendingNodeConnections rest s')"

text \<open>
  The block of \<open>update\<close> under the queue mutex: both loops, each followed by the \<open>clear()\<close>
  of its queue.
\<close>

definition drainPending :: "graph \<Rightarrow> error + graph" where
  "drainPending s =
     (let s1 = (fold applyPendingConnection (pendingConnections s) s)
                 \<lparr>pendingConnections := []\<rparr>
      in case applyPendingNodeConnections (pendingNodeConnections s1) s1 of
           Inl e \<Rightarrow> Inl e
         | Inr s2 \<Rightarrow> Inr (s2\<lparr>pendingNodeConnections := []\<rparr>))"

text \<open>
  \<open>update\<close>: the block, then \<open>derefFinishedSourceNodes\<close>. Its caller holds the graph lock
  (\<open>LabSound::update\<close> calls it only when \<open>g.context()\<close> is set).
\<close>

definition update :: "graph \<Rightarrow> error + graph" where
  "update s =
     (case drainPending s of
        Inl e \<Rightarrow> Inl e
      | Inr s' \<Rightarrow> Inr (derefFinishedSourceNodes s'))"

section \<open>AudioContext: automatic pull nodes and the render hooks\<close>

definition addAutomaticPullNode ::
  "ptr \<Rightarrow> 'a AudioContext_scheme \<Rightarrow> 'a AudioContext_scheme" where
  "addAutomaticPullNode node c =
     (if node \<notin> m_automaticPullNodes c
      then c\<lparr>m_automaticPullNodes := insert node (m_automaticPullNodes c),
             m_automaticPullNodesNeedUpdating := True\<rparr>
      else c)"

definition removeAutomaticPullNode ::
  "ptr \<Rightarrow> 'a AudioContext_scheme \<Rightarrow> 'a AudioContext_scheme" where
  "removeAutomaticPullNode node c =
     (if node \<in> m_automaticPullNodes c
      then c\<lparr>m_automaticPullNodes := m_automaticPullNodes c - {node},
             m_automaticPullNodesNeedUpdating := True\<rparr>
      else c)"

text \<open>
  \<open>updateAutomaticPullNodes\<close>: the vector is resized to the size of the set and filled
  from it in iteration order, so it becomes the ascending list of the set.
\<close>

definition updateAutomaticPullNodes :: "'a AudioContext_scheme \<Rightarrow> 'a AudioContext_scheme" where
  "updateAutomaticPullNodes c =
     (if m_automaticPullNodesNeedUpdating c
      then c\<lparr>m_renderingAutomaticPullNodes := sorted_list_of_set (m_automaticPullNodes c),
             m_automaticPullNodesNeedUpdating := False\<rparr>
      else c)"

definition handlePreRenderTasks :: "graph \<Rightarrow> graph" where
  "handlePreRenderTasks s = updateAutomaticPullNodes (handleDirtyAudioSummingJunctions s)"

text \<open>
  \<open>scheduleNodeDeletion\<close>; \<open>r_context\<close> tells whether \<open>r.context()\<close> is set. The callback
  it posts to the main thread, \<open>deleteMarkedNodes\<close>, runs later and is a step of its own.
\<close>

definition scheduleNodeDeletion ::
  "bool \<Rightarrow> 'a AudioContext_scheme \<Rightarrow> 'a AudioContext_scheme" where
  "scheduleNodeDeletion r_context c =
     (if \<not> (m_isInitialized c \<and> r_context) then c
      else if m_nodesMarkedForDeletion c \<noteq> [] \<and> \<not> m_isDeletionScheduled c
      then c\<lparr>m_nodesToDelete := m_nodesToDelete c @ m_nodesMarkedForDeletion c,
             m_nodesMarkedForDeletion := [],
             m_isDeletionScheduled := True\<rparr>
      else c)"

definition deleteMarkedNodes :: "'a AudioContext_scheme \<Rightarrow> 'a AudioContext_scheme" where
  "deleteMarkedNodes c = c\<lparr>m_nodesToDelete := [], m_isDeletionScheduled := False\<rparr>"

text \<open>
  The loop of \<open>handleAutomaticSources\<close>. After an erase the iterator already stands on
  the next entry, and the loop's \<open>++i\<close> steps over it: the entry after a finished one is
  kept without being asked. An empty pointer in the list is dereferenced.
\<close>

fun sweepAutomaticSources :: "(node \<Rightarrow> bool) \<Rightarrow> ptr list \<Rightarrow> error + ptr list" where
  "sweepAutomaticSources fin [] = Inr []"
| "sweepAutomaticSources fin (None # rest) = Inl NullDereference"
| "sweepAutomaticSources fin (Some n # rest) =
     (if fin n then
        (case rest of
           [] \<Rightarrow> Inr []
         | y # rest' \<Rightarrow> map_sum id ((#) y) (sweepAutomaticSources fin rest'))
      else map_sum id ((#) (Some n)) (sweepAutomaticSources fin rest))"

definition handleAutomaticSources :: "graph \<Rightarrow> error + graph" where
  "handleAutomaticSources s =
     (case sweepAutomaticSources (hasFinished s) (automaticSources s) of
        Inl e \<Rightarrow> Inl e
      | Inr kept \<Rightarrow> Inr (s\<lparr>automaticSources := kept\<rparr>))"

definition handlePostRenderTasks :: "bool \<Rightarrow> graph \<Rightarrow> error + graph" where
  "handlePostRenderTasks r_context s =
     handleAutomaticSources
       (updateAutomaticPullNodes
          (handleDirtyAudioSummingJunctions (scheduleNodeDeletion r_context s)))"

section \<open>The invariant of the specification\<close>

text \<open>
  "A node with connection-reference-count > 0 must be present in ReferenceSet", read on
  the signed value of the counter.
\<close>

definition refInvariant :: "graph \<Rightarrow> bool" where
  "refInvariant s \<longleftrightarrow>
     (\<forall>n. 0 < sint (m_connectionRefCount s n) \<longrightarrow> Some n \<in> set (m_referencedNodes s))"

text \<open>
  The form of the invariant that the reference list supports: \<open>refNode\<close> pushes one
  entry for every connect, so a node has at least as many entries in
  \<open>m_referencedNodes\<close> as its counter says.
\<close>

definition countInvariant :: "graph \<Rightarrow> bool" where
  "countInvariant s \<longleftrightarrow>
     (\<forall>n. sint (m_connectionRefCount s n)
            \<le> int (count_list (m_referencedNodes s) (Some n)))"

section \<open>Theorems\<close>

subsection \<open>MIDI note names\<close>

lemma getNoteStringFromMIDI_60: "getNoteStringFromMIDI 60 = ''C4''"
  by code_simp

lemma getNoteStringFromMIDI_0: "getNoteStringFromMIDI 0 = ''C-1''"
  by code_simp

text \<open>
  C10. The claim is that reading back the name written for a MIDI note number gives the
  number again. The writer subtracts one from the octave; the reader multiplies the octave
  digit by twelve without adding the one back, so the name of note 60, \<open>C4\<close>, reads back
  as 48.
\<close>

theorem midi_roundtrip_60_is_48:
  "getMIDIFromNoteString (getNoteStringFromMIDI 60) = Inr 48"
  by code_simp

text \<open>
  So it is for every note number from 0 to 127: the notes of the lowest octave, whose
  names end in \<open>-1\<close>, all read back as 11, and every other note reads back twelve lower.
\<close>

lemma midi_roundtrip_all:
  "list_all (\<lambda>n. getMIDIFromNoteString (getNoteStringFromMIDI (of_nat n))
                   = Inr (if n < 12 then 11 else of_nat n - 12)) [0..<128]"
  by code_simp

subsection \<open>Creating contexts\<close>

text \<open>
  C7. \<open>AudioContext::create\<close> answers the limit on simultaneous hardware contexts with a
  null pointer: once the count of live hardware contexts has reached four it returns
  null and constructs nothing; below four it returns a freshly constructed context.
\<close>

theorem create_limit:
  "(4 \<le> sint s_hardwareContextCount \<longrightarrow> create s_hardwareContextCount = None) \<and>
   (sint s_hardwareContextCount < 4 \<longrightarrow>
      create s_hardwareContextCount = Some newAudioContext)"
  by (simp add: create_def MaxHardwareContexts_def word_sle_eq)

theorem create_limit_witness:
  "4 \<le> sint (4 :: 32 word) \<and> create 4 = None \<and>
   sint (3 :: 32 word) < 4 \<and> create 3 = Some newAudioContext"
  using create_limit [of 4] create_limit [of 3] by simp

lemma isSampleRateRangeGood_iff:
  "isSampleRateRangeGood x \<longleftrightarrow> (\<exists>r. x = Finite r \<and> 44100 \<le> r \<and> r \<le> 96000)"
  by (cases x) (auto simp: isSampleRateRangeGood_def float_ge_def)

lemma float_eq_Finite: "float_eq d (Finite r) \<longleftrightarrow> d = Finite r"
  by (cases d) auto

text \<open>
  C9. \<open>createOfflineContext\<close> checks its arguments before it constructs anything. With
  more than ten channels, or a sample rate that is not a number from 44100 to 96000, or
  an existing HRTF loader for another sample rate, it sets the exception code to
  \<open>SYNTAX_ERR\<close> and returns null; in every other case it leaves the code alone and returns
  a fresh offline context built from its arguments.
\<close>

theorem createOfflineContext_validates:
  "(10 < unat numberOfChannels
      \<or> \<not> (\<exists>r. sampleRate = Finite r \<and> 44100 \<le> r \<and> r \<le> 96000)
      \<or> (\<exists>d. loader = Some d \<and> d \<noteq> sampleRate)
    \<longrightarrow> createOfflineContext loader indeterminate numberOfChannels numberOfFrames sampleRate ec
          = (SYNTAX_ERR, None)) \<and>
   (unat numberOfChannels \<le> 10
      \<and> (\<exists>r. sampleRate = Finite r \<and> 44100 \<le> r \<and> r \<le> 96000)
      \<and> (loader = None \<or> loader = Some sampleRate)
    \<longrightarrow> createOfflineContext loader indeterminate numberOfChannels numberOfFrames sampleRate ec
          = (ec, Some (newOfflineAudioContext indeterminate numberOfChannels numberOfFrames
                         sampleRate)))"
proof -
  have ch: "(10 < numberOfChannels) = (10 < unat numberOfChannels)"
    by (simp add: word_less_nat_alt)
  show ?thesis
  proof (cases "isSampleRateRangeGood sampleRate")
    case False
    then show ?thesis
      by (simp add: createOfflineContext_def isSampleRateRangeGood_iff)
  next
    case True
    then obtain r where r: "sampleRate = Finite r" "44100 \<le> r" "r \<le> 96000"
      by (auto simp: isSampleRateRangeGood_iff)
    with True show ?thesis
      by (cases loader) (auto simp: createOfflineContext_def ch float_eq_Finite)
  qed
qed

theorem createOfflineContext_validates_witness:
  "createOfflineContext None False 11 128 (Finite 44100) NO_ERR = (SYNTAX_ERR, None) \<and>
   createOfflineContext None False 2 128 (Finite 22050) NO_ERR = (SYNTAX_ERR, None) \<and>
   createOfflineContext (Some (Finite 48000)) False 2 128 (Finite 44100) NO_ERR
     = (SYNTAX_ERR, None) \<and>
   createOfflineContext (Some (Finite 44100)) False 2 128 (Finite 44100) NO_ERR
     = (NO_ERR, Some (newOfflineAudioContext False 2 128 (Finite 44100)))"
  using createOfflineContext_validates [of 11 "Finite 44100" None False 128 NO_ERR]
    createOfflineContext_validates [of 2 "Finite 22050" None False 128 NO_ERR]
    createOfflineContext_validates [of 2 "Finite 44100" "Some (Finite 48000)" False 128 NO_ERR]
    createOfflineContext_validates [of 2 "Finite 44100" "Some (Finite 44100)" False 128 NO_ERR]
  by simp

subsection \<open>The automatic pull registry\<close>

text \<open>
  C8. Adding a node that the write-side set already holds, or removing one it does not
  hold, returns the context as it was, dirty flag included. Adding an absent node or
  removing a present one changes the set and raises the flag.
\<close>

theorem automaticPullNode_idempotent:
  "(node \<in> m_automaticPullNodes c \<longrightarrow> addAutomaticPullNode node c = c) \<and>
   (node \<notin> m_automaticPullNodes c \<longrightarrow>
      m_automaticPullNodes (addAutomaticPullNode node c) = insert node (m_automaticPullNodes c)
      \<and> m_automaticPullNodes (addAutomaticPullNode node c) \<noteq> m_automaticPullNodes c
      \<and> m_automaticPullNodesNeedUpdating (addAutomaticPullNode node c)) \<and>
   (node \<notin> m_automaticPullNodes c \<longrightarrow> removeAutomaticPullNode node c = c) \<and>
   (node \<in> m_automaticPullNodes c \<longrightarrow>
      m_automaticPullNodes (removeAutomaticPullNode node c) = m_automaticPullNodes c - {node}
      \<and> m_automaticPullNodes (removeAutomaticPullNode node c) \<noteq> m_automaticPullNodes c
      \<and> m_automaticPullNodesNeedUpdating (removeAutomaticPullNode node c))"
  by (auto simp: addAutomaticPullNode_def removeAutomaticPullNode_def)

theorem automaticPullNode_idempotent_witness:
  "addAutomaticPullNode (Some 1) (addAutomaticPullNode (Some 1) emptyGraph)
     = addAutomaticPullNode (Some 1) emptyGraph \<and>
   m_automaticPullNodes (addAutomaticPullNode (Some 1) emptyGraph) = {Some 1} \<and>
   m_automaticPullNodesNeedUpdating (addAutomaticPullNode (Some 1) emptyGraph) \<and>
   removeAutomaticPullNode (Some 1) emptyGraph = emptyGraph \<and>
   m_automaticPullNodes
     (removeAutomaticPullNode (Some 1) (addAutomaticPullNode (Some 1) emptyGraph)) = {} \<and>
   m_automaticPullNodesNeedUpdating
     (removeAutomaticPullNode (Some 1) (addAutomaticPullNode (Some 1) emptyGraph))"
  using automaticPullNode_idempotent [of "Some 1" "addAutomaticPullNode (Some 1) emptyGraph"]
    automaticPullNode_idempotent [of "Some 1" emptyGraph]
  by (simp add: addAutomaticPullNode_def emptyGraph_def newAudioContext_def
      AudioContext.defs graph.defs)

subsection \<open>What each step of update leaves alone\<close>

text \<open>
  Every primitive that \<open>update\<close> calls writes a few fields and leaves the others as they
  are. The facts below give, for each primitive, the fields it leaves alone and the new
  value of those it writes, and say that it commutes with a write to
  \<open>pendingNodeConnections\<close>.
\<close>

named_theorems frame

lemma AudioNodeInput_connect_frame [frame]:
  "m_referencedNodes (AudioNodeInput_connect j out s) = m_referencedNodes s"
  "m_connectionRefCount (AudioNodeInput_connect j out s) = m_connectionRefCount s"
  "pendingConnections (AudioNodeInput_connect j out s) = pendingConnections s"
  "pendingNodeConnections (AudioNodeInput_connect j out s) = pendingNodeConnections s"
  "m_finishedNodes (AudioNodeInput_connect j out s) = m_finishedNodes s"
  "m_automaticPullNodes (AudioNodeInput_connect j out s) = m_automaticPullNodes s"
  "m_renderingAutomaticPullNodes (AudioNodeInput_connect j out s)
     = m_renderingAutomaticPullNodes s"
  "m_automaticPullNodesNeedUpdating (AudioNodeInput_connect j out s)
     = m_automaticPullNodesNeedUpdating s"
  "outputsEnabled (AudioNodeInput_connect j out s) = outputsEnabled s"
  "AudioNodeInput_connect j out (s\<lparr>pendingNodeConnections := q\<rparr>)
     = (AudioNodeInput_connect j out s)\<lparr>pendingNodeConnections := q\<rparr>"
  by (simp_all add: AudioNodeInput_connect_def split: option.splits)

lemma AudioNodeInput_disconnect_frame [frame]:
  "m_referencedNodes (AudioNodeInput_disconnect j out s) = m_referencedNodes s"
  "m_connectionRefCount (AudioNodeInput_disconnect j out s) = m_connectionRefCount s"
  "pendingConnections (AudioNodeInput_disconnect j out s) = pendingConnections s"
  "pendingNodeConnections (AudioNodeInput_disconnect j out s) = pendingNodeConnections s"
  "m_finishedNodes (AudioNodeInput_disconnect j out s) = m_finishedNodes s"
  "m_automaticPullNodes (AudioNodeInput_disconnect j out s) = m_automaticPullNodes s"
  "m_renderingAutomaticPullNodes (AudioNodeInput_disconnect j out s)
     = m_renderingAutomaticPullNodes s"
  "m_automaticPullNodesNeedUpdating (AudioNodeInput_disconnect j out s)
     = m_automaticPullNodesNeedUpdating s"
  "outputsEnabled (AudioNodeInput_disconnect j out s) = outputsEnabled s"
  "AudioNodeInput_disconnect j out (s\<lparr>pendingNodeConnections := q\<rparr>)
     = (AudioNodeInput_disconnect j out s)\<lparr>pendingNodeConnections := q\<rparr>"
  by (simp_all add: AudioNodeInput_disconnect_def split: option.splits)

lemma AudioNodeOutput_disconnectAll_frame [frame]:
  "m_referencedNodes (AudioNodeOutput_disconnectAll out s) = m_referencedNodes s"
  "m_connectionRefCount (AudioNodeOutput_disconnectAll out s) = m_connectionRefCount s"
  "pendingConnections (AudioNodeOutput_disconnectAll out s) = pendingConnections s"
  "pendingNodeConnections (AudioNodeOutput_disconnectAll out s) = pendingNodeConnections s"
  "m_finishedNodes (AudioNodeOutput_disconnectAll out s) = m_finishedNodes s"
  "m_automaticPullNodes (AudioNodeOutput_disconnectAll out s) = m_automaticPullNodes s"
  "m_renderingAutomaticPullNodes (AudioNodeOutput_disconnectAll out s)
     = m_renderingAutomaticPullNodes s"
  "m_automaticPullNodesNeedUpdating (AudioNodeOutput_disconnectAll out s)
     = m_automaticPullNodesNeedUpdating s"
  "outputsEnabled (AudioNodeOutput_disconnectAll out s) = outputsEnabled s"
  "AudioNodeOutput_disconnectAll out (s\<lparr>pendingNodeConnections := q\<rparr>)
     = (AudioNodeOutput_disconnectAll out s)\<lparr>pendingNodeConnections := q\<rparr>"
  by (simp_all add: AudioNodeOutput_disconnectAll_def split: option.splits)

lemma enableOutputsIfNecessary_frame [frame]:
  "m_referencedNodes (enableOutputsIfNecessary n s) = m_referencedNodes s"
  "m_connectionRefCount (enableOutputsIfNecessary n s) = m_connectionRefCount s"
  "pendingConnections (enableOutputsIfNecessary n s) = pendingConnections s"
  "pendingNodeConnections (enableOutputsIfNecessary n s) = pendingNodeConnections s"
  "m_finishedNodes (enableOutputsIfNecessary n s) = m_finishedNodes s"
  "m_automaticPullNodes (enableOutputsIfNecessary n s) = m_automaticPullNodes s"
  "m_renderingAutomaticPullNodes (enableOutputsIfNecessary n s)
     = m_renderingAutomaticPullNodes s"
  "m_automaticPullNodesNeedUpdating (enableOutputsIfNecessary n s)
     = m_automaticPullNodesNeedUpdating s"
  "edges (enableOutputsIfNecessary n s) = edges s"
  "outputsEnabled (enableOutputsIfNecessary n s) = (outputsEnabled s)(n := True)"
  "enableOutputsIfNecessary n (s\<lparr>pendingNodeConnections := q\<rparr>)
     = (enableOutputsIfNecessary n s)\<lparr>pendingNodeConnections := q\<rparr>"
  by (simp_all add: enableOutputsIfNecessary_def)

lemma disableOutputsIfNecessary_frame [frame]:
  "m_referencedNodes (disableOutputsIfNecessary n s) = m_referencedNodes s"
  "m_connectionRefCount (disableOutputsIfNecessary n s) = m_connectionRefCount s"
  "pendingConnections (disableOutputsIfNecessary n s) = pendingConnections s"
  "pendingNodeConnections (disableOutputsIfNecessary n s) = pendingNodeConnections s"
  "m_finishedNodes (disableOutputsIfNecessary n s) = m_finishedNodes s"
  "m_automaticPullNodes (disableOutputsIfNecessary n s) = m_automaticPullNodes s"
  "m_renderingAutomaticPullNodes (disableOutputsIfNecessary n s)
     = m_renderingAutomaticPullNodes s"
  "m_automaticPullNodesNeedUpdating (disableOutputsIfNecessary n s)
     = m_automaticPullNodesNeedUpdating s"
  "edges (disableOutputsIfNecessary n s) = edges s"
  "disableOutputsIfNecessary n (s\<lparr>pendingNodeConnections := q\<rparr>)
     = (disableOutputsIfNecessary n s)\<lparr>pendingNodeConnections := q\<rparr>"
  by (simp_all add: disableOutputsIfNecessary_def)

lemma atomicIncrement_frame [frame]:
  "m_referencedNodes (atomicIncrement n s) = m_referencedNodes s"
  "m_connectionRefCount (atomicIncrement n s)
     = (m_connectionRefCount s)(n := m_connectionRefCount s n + 1)"
  "pendingConnections (atomicIncrement n s) = pendingConnections s"
  "pendingNodeConnections (atomicIncrement n s) = pendingNodeConnections s"
  "m_finishedNodes (atomicIncrement n s) = m_finishedNodes s"
  "m_automaticPullNodes (atomicIncrement n s) = m_automaticPullNodes s"
  "m_renderingAutomaticPullNodes (atomicIncrement n s) = m_renderingAutomaticPullNodes s"
  "m_automaticPullNodesNeedUpdating (atomicIncrement n s)
     = m_automaticPullNodesNeedUpdating s"
  "edges (atomicIncrement n s) = edges s"
  "outputsEnabled (atomicIncrement n s) = outputsEnabled s"
  "atomicIncrement n (s\<lparr>pendingNodeConnections := q\<rparr>)
     = (atomicIncrement n s)\<lparr>pendingNodeConnections := q\<rparr>"
  by (simp_all add: atomicIncrement_def)

lemma atomicDecrement_frame [frame]:
  "m_referencedNodes (atomicDecrement n s) = m_referencedNodes s"
  "m_connectionRefCount (atomicDecrement n s)
     = (m_connectionRefCount s)(n := m_connectionRefCount s n - 1)"
  "pendingConnections (atomicDecrement n s) = pendingConnections s"
  "pendingNodeConnections (atomicDecrement n s) = pendingNodeConnections s"
  "m_finishedNodes (atomicDecrement n s) = m_finishedNodes s"
  "m_automaticPullNodes (atomicDecrement n s) = m_automaticPullNodes s"
  "m_renderingAutomaticPullNodes (atomicDecrement n s) = m_renderingAutomaticPullNodes s"
  "m_automaticPullNodesNeedUpdating (atomicDecrement n s)
     = m_automaticPullNodesNeedUpdating s"
  "edges (atomicDecrement n s) = edges s"
  "outputsEnabled (atomicDecrement n s) = outputsEnabled s"
  "atomicDecrement n (s\<lparr>pendingNodeConnections := q\<rparr>)
     = (atomicDecrement n s)\<lparr>pendingNodeConnections := q\<rparr>"
  by (simp_all add: atomicDecrement_def)

lemma refNode_frame [frame]:
  "m_referencedNodes (refNode p c) = m_referencedNodes c @ [p]"
  "pendingConnections (refNode p c) = pendingConnections c"
  "pendingNodeConnections (refNode p c) = pendingNodeConnections c"
  "m_finishedNodes (refNode p c) = m_finishedNodes c"
  "m_automaticPullNodes (refNode p c) = m_automaticPullNodes c"
  "m_renderingAutomaticPullNodes (refNode p c) = m_renderingAutomaticPullNodes c"
  "m_automaticPullNodesNeedUpdating (refNode p c) = m_automaticPullNodesNeedUpdating c"
  "refNode p (c\<lparr>pendingNodeConnections := q\<rparr>) = (refNode p c)\<lparr>pendingNodeConnections := q\<rparr>"
  by (simp_all add: refNode_def)

lemma refNode_graph_frame [frame]:
  "m_connectionRefCount (refNode p s) = m_connectionRefCount s"
  "edges (refNode p s) = edges s"
  "outputsEnabled (refNode p s) = outputsEnabled s"
  by (simp_all add: refNode_def)

lemma derefNode_frame [frame]:
  "m_referencedNodes (derefNode p c) = remove1 p (m_referencedNodes c)"
  "pendingConnections (derefNode p c) = pendingConnections c"
  "pendingNodeConnections (derefNode p c) = pendingNodeConnections c"
  "m_finishedNodes (derefNode p c) = m_finishedNodes c"
  "m_automaticPullNodes (derefNode p c) = m_automaticPullNodes c"
  "m_renderingAutomaticPullNodes (derefNode p c) = m_renderingAutomaticPullNodes c"
  "m_automaticPullNodesNeedUpdating (derefNode p c) = m_automaticPullNodesNeedUpdating c"
  "derefNode p (c\<lparr>pendingNodeConnections := q\<rparr>)
     = (derefNode p c)\<lparr>pendingNodeConnections := q\<rparr>"
  by (simp_all add: derefNode_def)

lemma derefNode_graph_frame [frame]:
  "m_connectionRefCount (derefNode p s) = m_connectionRefCount s"
  "edges (derefNode p s) = edges s"
  "outputsEnabled (derefNode p s) = outputsEnabled s"
  by (simp_all add: derefNode_def)

lemma connectNodes_frame:
  "m_referencedNodes (connectNodes f t s) = m_referencedNodes s @ [Some f, Some t]"
  "m_connectionRefCount (connectNodes f t s)
     = m_connectionRefCount (atomicIncrement t (atomicIncrement f s))"
  "pendingConnections (connectNodes f t s) = pendingConnections s"
  "pendingNodeConnections (connectNodes f t s) = pendingNodeConnections s"
  "m_finishedNodes (connectNodes f t s) = m_finishedNodes s"
  "m_automaticPullNodes (connectNodes f t s) = m_automaticPullNodes s"
  "m_renderingAutomaticPullNodes (connectNodes f t s) = m_renderingAutomaticPullNodes s"
  "m_automaticPullNodesNeedUpdating (connectNodes f t s)
     = m_automaticPullNodesNeedUpdating s"
  "connectNodes f t (s\<lparr>pendingNodeConnections := q\<rparr>)
     = (connectNodes f t s)\<lparr>pendingNodeConnections := q\<rparr>"
  by (simp_all add: connectNodes_def Let_def frame)

lemma disconnectNodes_frame:
  "m_referencedNodes (disconnectNodes f t s)
     = remove1 (Some t) (remove1 (Some f) (m_referencedNodes s))"
  "m_connectionRefCount (disconnectNodes f t s)
     = m_connectionRefCount (atomicDecrement t (atomicDecrement f s))"
  "pendingConnections (disconnectNodes f t s) = pendingConnections s"
  "pendingNodeConnections (disconnectNodes f t s) = pendingNodeConnections s"
  "m_finishedNodes (disconnectNodes f t s) = m_finishedNodes s"
  "m_automaticPullNodes (disconnectNodes f t s) = m_automaticPullNodes s"
  "m_renderingAutomaticPullNodes (disconnectNodes f t s) = m_renderingAutomaticPullNodes s"
  "m_automaticPullNodesNeedUpdating (disconnectNodes f t s)
     = m_automaticPullNodesNeedUpdating s"
  "disconnectNodes f t (s\<lparr>pendingNodeConnections := q\<rparr>)
     = (disconnectNodes f t s)\<lparr>pendingNodeConnections := q\<rparr>"
  by (simp_all add: disconnectNodes_def Let_def frame)

lemma disconnectAllOf_frame:
  "m_referencedNodes (disconnectAllOf t s) = m_referencedNodes s"
  "m_connectionRefCount (disconnectAllOf t s) = m_connectionRefCount (atomicDecrement t s)"
  "pendingConnections (disconnectAllOf t s) = pendingConnections s"
  "pendingNodeConnections (disconnectAllOf t s) = pendingNodeConnections s"
  "m_finishedNodes (disconnectAllOf t s) = m_finishedNodes s"
  "m_automaticPullNodes (disconnectAllOf t s) = m_automaticPullNodes s"
  "m_renderingAutomaticPullNodes (disconnectAllOf t s) = m_renderingAutomaticPullNodes s"
  "m_automaticPullNodesNeedUpdating (disconnectAllOf t s)
     = m_automaticPullNodesNeedUpdating s"
  "disconnectAllOf t (s\<lparr>pendingNodeConnections := q\<rparr>)
     = (disconnectAllOf t s)\<lparr>pendingNodeConnections := q\<rparr>"
  by (simp_all add: disconnectAllOf_def AudioNode_disconnect_def Let_def frame)

lemma applyPendingConnection_frame:
  "m_referencedNodes (applyPendingConnection i s) = m_referencedNodes s"
  "m_connectionRefCount (applyPendingConnection i s) = m_connectionRefCount s"
  "pendingConnections (applyPendingConnection i s) = pendingConnections s"
  "pendingNodeConnections (applyPendingConnection i s) = pendingNodeConnections s"
  "m_finishedNodes (applyPendingConnection i s) = m_finishedNodes s"
  "m_automaticPullNodes (applyPendingConnection i s) = m_automaticPullNodes s"
  "m_renderingAutomaticPullNodes (applyPendingConnection i s)
     = m_renderingAutomaticPullNodes s"
  "m_automaticPullNodesNeedUpdating (applyPendingConnection i s)
     = m_automaticPullNodesNeedUpdating s"
  "applyPendingConnection i (s\<lparr>pendingNodeConnections := q\<rparr>)
     = (applyPendingConnection i s)\<lparr>pendingNodeConnections := q\<rparr>"
  by (simp_all add: applyPendingConnection_def frame)

lemma fold_applyPendingConnection_frame:
  "m_referencedNodes (fold applyPendingConnection pcs s) = m_referencedNodes s"
  "m_connectionRefCount (fold applyPendingConnection pcs s) = m_connectionRefCount s"
  "pendingConnections (fold applyPendingConnection pcs s) = pendingConnections s"
  "pendingNodeConnections (fold applyPendingConnection pcs s) = pendingNodeConnections s"
  "m_finishedNodes (fold applyPendingConnection pcs s) = m_finishedNodes s"
  "m_automaticPullNodes (fold applyPendingConnection pcs s) = m_automaticPullNodes s"
  "m_renderingAutomaticPullNodes (fold applyPendingConnection pcs s)
     = m_renderingAutomaticPullNodes s"
  "m_automaticPullNodesNeedUpdating (fold applyPendingConnection pcs s)
     = m_automaticPullNodesNeedUpdating s"
  "fold applyPendingConnection pcs (s\<lparr>pendingNodeConnections := q\<rparr>)
     = (fold applyPendingConnection pcs s)\<lparr>pendingNodeConnections := q\<rparr>"
  by (induction pcs arbitrary: s) (simp_all add: applyPendingConnection_frame)

lemma applyPendingNodeConnection_queue:
  "applyPendingNodeConnection i (s\<lparr>pendingNodeConnections := q\<rparr>)
     = map_sum id (\<lambda>x. x\<lparr>pendingNodeConnections := q\<rparr>) (applyPendingNodeConnection i s)"
  by (simp add: applyPendingNodeConnection_def connectNodes_frame disconnectNodes_frame
      disconnectAllOf_frame split: option.splits)

lemma applyPendingNodeConnection_frame:
  assumes "applyPendingNodeConnection i s = Inr s'"
  shows "pendingConnections s' = pendingConnections s"
    and "pendingNodeConnections s' = pendingNodeConnections s"
    and "m_finishedNodes s' = m_finishedNodes s"
    and "m_automaticPullNodes s' = m_automaticPullNodes s"
    and "m_renderingAutomaticPullNodes s' = m_renderingAutomaticPullNodes s"
    and "m_automaticPullNodesNeedUpdating s' = m_automaticPullNodesNeedUpdating s"
  using assms
  by (auto simp: applyPendingNodeConnection_def connectNodes_frame disconnectNodes_frame
      disconnectAllOf_frame split: if_splits option.splits)

lemma applyPendingNodeConnections_frame:
  assumes "applyPendingNodeConnections rs s = Inr s'"
  shows "pendingConnections s' = pendingConnections s
       \<and> pendingNodeConnections s' = pendingNodeConnections s
       \<and> m_finishedNodes s' = m_finishedNodes s
       \<and> m_automaticPullNodes s' = m_automaticPullNodes s
       \<and> m_renderingAutomaticPullNodes s' = m_renderingAutomaticPullNodes s
       \<and> m_automaticPullNodesNeedUpdating s' = m_automaticPullNodesNeedUpdating s"
  using assms
proof (induction rs arbitrary: s)
  case Nil
  then show ?case by simp
next
  case (Cons i rest)
  from Cons.prems obtain m where m: "applyPendingNodeConnection i s = Inr m"
    and rest: "applyPendingNodeConnections rest m = Inr s'"
    by (auto split: sum.splits)
  from Cons.IH [OF rest] applyPendingNodeConnection_frame [OF m] show ?case by simp
qed

lemma applyPendingNodeConnections_queue:
  "applyPendingNodeConnections rs (s\<lparr>pendingNodeConnections := q\<rparr>)
     = map_sum id (\<lambda>x. x\<lparr>pendingNodeConnections := q\<rparr>) (applyPendingNodeConnections rs s)"
proof (induction rs arbitrary: s)
  case Nil
  then show ?case by simp
next
  case (Cons i rest)
  show ?case
    by (cases "applyPendingNodeConnection i s")
      (simp_all add: applyPendingNodeConnection_queue Cons.IH)
qed

lemma applyPendingNodeConnections_append:
  "applyPendingNodeConnections (xs @ ys) s
     = (case applyPendingNodeConnections xs s of
          Inl e \<Rightarrow> Inl e
        | Inr s' \<Rightarrow> applyPendingNodeConnections ys s')"
  by (induction xs arbitrary: s) (simp_all split: sum.splits)

lemma drainPending_frame:
  assumes "drainPending s = Inr d"
  shows "pendingConnections d = [] \<and> pendingNodeConnections d = []
       \<and> m_finishedNodes d = m_finishedNodes s
       \<and> m_automaticPullNodes d = m_automaticPullNodes s
       \<and> m_renderingAutomaticPullNodes d = m_renderingAutomaticPullNodes s
       \<and> m_automaticPullNodesNeedUpdating d = m_automaticPullNodesNeedUpdating s"
proof -
  define b where
    "b = (fold applyPendingConnection (pendingConnections s) s)\<lparr>pendingConnections := []\<rparr>"
  from assms obtain x where x: "applyPendingNodeConnections (pendingNodeConnections b) b = Inr x"
    and d: "d = x\<lparr>pendingNodeConnections := []\<rparr>"
    by (auto simp: drainPending_def Let_def b_def split: sum.splits)
  from applyPendingNodeConnections_frame [OF x] show ?thesis
    by (simp add: d b_def fold_applyPendingConnection_frame)
qed

lemma drainPending_snoc:
  "drainPending (s\<lparr>pendingNodeConnections := pendingNodeConnections s @ [i]\<rparr>)
     = (case drainPending s of
          Inl e \<Rightarrow> Inl e
        | Inr d \<Rightarrow> map_sum id (\<lambda>x. x\<lparr>pendingNodeConnections := []\<rparr>)
                    (applyPendingNodeConnection i d))"
proof -
  define b where
    "b = (fold applyPendingConnection (pendingConnections s) s)\<lparr>pendingConnections := []\<rparr>"
  define q where "q = pendingNodeConnections s"
  have l: "drainPending (s\<lparr>pendingNodeConnections := q @ [i]\<rparr>)
         = map_sum id (\<lambda>x. x\<lparr>pendingNodeConnections := []\<rparr>)
             (applyPendingNodeConnections (q @ [i]) b)"
  proof -
    let ?s = "s\<lparr>pendingNodeConnections := q @ [i]\<rparr>"
    have 1: "(fold applyPendingConnection (pendingConnections ?s) ?s)\<lparr>pendingConnections := []\<rparr>
           = b\<lparr>pendingNodeConnections := q @ [i]\<rparr>"
      by (simp add: b_def fold_applyPendingConnection_frame)
    have 2: "pendingNodeConnections (b\<lparr>pendingNodeConnections := q @ [i]\<rparr>) = q @ [i]"
      by simp
    show ?thesis
      unfolding drainPending_def Let_def 1 2 applyPendingNodeConnections_queue
      by (cases "applyPendingNodeConnections (q @ [i]) b") simp_all
  qed
  have r: "drainPending s
         = map_sum id (\<lambda>x. x\<lparr>pendingNodeConnections := []\<rparr>)
             (applyPendingNodeConnections q b)"
    by (cases "applyPendingNodeConnections q b")
      (simp_all add: drainPending_def Let_def b_def q_def fold_applyPendingConnection_frame)
  show ?thesis
  proof (cases "applyPendingNodeConnections q b")
    case (Inl e)
    then show ?thesis
      unfolding q_def [symmetric] l r by (simp add: applyPendingNodeConnections_append)
  next
    case (Inr x)
    then show ?thesis
      unfolding q_def [symmetric] l r
      by (cases "applyPendingNodeConnection i x")
        (simp_all add: applyPendingNodeConnections_append applyPendingNodeConnection_queue)
  qed
qed

lemma fold_derefNode_frame:
  "m_referencedNodes (fold derefNode ns c) = fold remove1 ns (m_referencedNodes c)"
  "pendingConnections (fold derefNode ns c) = pendingConnections c"
  "pendingNodeConnections (fold derefNode ns c) = pendingNodeConnections c"
  "m_finishedNodes (fold derefNode ns c) = m_finishedNodes c"
  "m_automaticPullNodes (fold derefNode ns c) = m_automaticPullNodes c"
  "m_renderingAutomaticPullNodes (fold derefNode ns c) = m_renderingAutomaticPullNodes c"
  "m_automaticPullNodesNeedUpdating (fold derefNode ns c) = m_automaticPullNodesNeedUpdating c"
  by (induction ns arbitrary: c) (simp_all add: derefNode_frame)

lemma fold_derefNode_graph_frame:
  "m_connectionRefCount (fold derefNode ns s) = m_connectionRefCount s"
  by (induction ns arbitrary: s) (simp_all add: derefNode_graph_frame)

lemma derefFinishedSourceNodes_frame:
  "m_referencedNodes (derefFinishedSourceNodes c)
     = fold remove1 (m_finishedNodes c) (m_referencedNodes c)"
  "pendingConnections (derefFinishedSourceNodes c) = pendingConnections c"
  "pendingNodeConnections (derefFinishedSourceNodes c) = pendingNodeConnections c"
  "m_finishedNodes (derefFinishedSourceNodes c) = []"
  "m_automaticPullNodes (derefFinishedSourceNodes c) = m_automaticPullNodes c"
  "m_renderingAutomaticPullNodes (derefFinishedSourceNodes c)
     = m_renderingAutomaticPullNodes c"
  "m_automaticPullNodesNeedUpdating (derefFinishedSourceNodes c)
     = m_automaticPullNodesNeedUpdating c"
  by (simp_all add: derefFinishedSourceNodes_def fold_derefNode_frame)

lemma derefFinishedSourceNodes_graph_frame:
  "m_connectionRefCount (derefFinishedSourceNodes s) = m_connectionRefCount s"
  by (simp add: derefFinishedSourceNodes_def fold_derefNode_graph_frame)

lemma update_frame:
  assumes "update s = Inr s'"
  shows "pendingConnections s' = [] \<and> pendingNodeConnections s' = []
       \<and> m_finishedNodes s' = []
       \<and> m_automaticPullNodes s' = m_automaticPullNodes s
       \<and> m_renderingAutomaticPullNodes s' = m_renderingAutomaticPullNodes s
       \<and> m_automaticPullNodesNeedUpdating s' = m_automaticPullNodesNeedUpdating s"
proof -
  from assms obtain d where d: "drainPending s = Inr d" and s': "s' = derefFinishedSourceNodes d"
    by (auto simp: update_def split: sum.splits)
  from drainPending_frame [OF d] show ?thesis
    by (simp add: s' derefFinishedSourceNodes_frame)
qed

subsection \<open>Requests are applied in submission order\<close>

text \<open>
  A request appended to \<open>pendingNodeConnections\<close> is applied after everything that was
  pending, to the state those requests produced; a successful \<open>update\<close> leaves both
  queues empty; and a queue whose requests all name two nodes never faults.
\<close>

lemma update_drains_queues:
  "update s = Inr s' \<Longrightarrow> pendingConnections s' = [] \<and> pendingNodeConnections s' = []"
  by (simp add: update_frame)

lemma update_applies_in_order:
  "update (s\<lparr>pendingNodeConnections := pendingNodeConnections s @ [i]\<rparr>)
     = (case drainPending s of
          Inl e \<Rightarrow> Inl e
        | Inr d \<Rightarrow>
            (case applyPendingNodeConnection i d of
               Inl e \<Rightarrow> Inl e
             | Inr d' \<Rightarrow> Inr (derefFinishedSourceNodes d')))"
proof (cases "drainPending s")
  case (Inl e)
  then show ?thesis by (simp add: update_def drainPending_snoc)
next
  case (Inr d)
  then have q: "pendingNodeConnections d = []"
    by (simp add: drainPending_frame)
  show ?thesis
  proof (cases "applyPendingNodeConnection i d")
    case (Inl e)
    with Inr show ?thesis by (simp add: update_def drainPending_snoc)
  next
    case r: (Inr d')
    then have "pendingNodeConnections d' = []"
      using q by (simp add: applyPendingNodeConnection_frame)
    then have "d'\<lparr>pendingNodeConnections := []\<rparr> = d'"
      by (metis AudioContext.update_convs(19) AudioContext.surjective)
    with Inr r show ?thesis by (simp add: update_def drainPending_snoc)
  qed
qed

lemma applyPendingNodeConnections_total:
  assumes "\<forall>i \<in> set rs. nc_from i \<noteq> None \<and> nc_to i \<noteq> None"
  shows "\<exists>s'. applyPendingNodeConnections rs s = Inr s'"
  using assms
proof (induction rs arbitrary: s)
  case Nil
  then show ?case by simp
next
  case (Cons i rest)
  then obtain f t where "nc_from i = Some f" "nc_to i = Some t" by auto
  then have "\<exists>m. applyPendingNodeConnection i s = Inr m"
    by (simp add: applyPendingNodeConnection_def)
  then obtain m where "applyPendingNodeConnection i s = Inr m" ..
  with Cons show ?case by simp
qed

lemma update_total_on_nonnull_requests:
  assumes "\<forall>i \<in> set (pendingNodeConnections s). nc_from i \<noteq> None \<and> nc_to i \<noteq> None"
  shows "\<exists>s'. update s = Inr s' \<and> pendingConnections s' = [] \<and> pendingNodeConnections s' = []"
proof -
  define b where
    "b = (fold applyPendingConnection (pendingConnections s) s)\<lparr>pendingConnections := []\<rparr>"
  have "pendingNodeConnections b = pendingNodeConnections s"
    by (simp add: b_def fold_applyPendingConnection_frame)
  with assms obtain x where "applyPendingNodeConnections (pendingNodeConnections b) b = Inr x"
    using applyPendingNodeConnections_total [of "pendingNodeConnections b" b] by auto
  then obtain s' where s': "update s = Inr s'"
    by (simp add: update_def drainPending_def Let_def b_def)
  with update_frame [OF s'] show ?thesis by simp
qed

subsection \<open>Running update on concrete requests\<close>

lemmas graph_eval =
  emptyGraph_def newAudioContext_def AudioContext.defs graph.defs
  connect_def disconnect_def disconnect_node_def update_def drainPending_def
  applyPendingNodeConnection_def connectNodes_def disconnectNodes_def disconnectAllOf_def
  refNode_def derefNode_def derefFinishedSourceNodes_def atomicIncrement_def
  atomicDecrement_def AudioNodeInput_connect_def AudioNodeInput_disconnect_def
  AudioNode_disconnect_def AudioNodeOutput_disconnectAll_def enableOutputsIfNecessary_def
  disableOutputsIfNecessary_def applyPendingConnection_def Let_def

text \<open>
  C6 (Scenario A). From the empty graph, with three different nodes \<open>src\<close>, \<open>gain\<close> and
  \<open>dest\<close>: after \<open>connect(src, gain)\<close>, \<open>connect(gain, dest)\<close> and one \<open>update\<close>, the
  reference list holds \<open>src\<close> and \<open>gain\<close>, the connection reference count of \<open>src\<close> is 1
  and that of \<open>gain\<close> is 2.
\<close>

theorem scenario_A:
  assumes "distinct [src, gain, dest]"
  shows "\<exists>s'. update (connect (Some gain) (Some dest)
                        (connect (Some src) (Some gain) emptyGraph)) = Inr s'
           \<and> Some src \<in> set (m_referencedNodes s')
           \<and> Some gain \<in> set (m_referencedNodes s')
           \<and> m_connectionRefCount s' src = 1
           \<and> m_connectionRefCount s' gain = 2"
  using assms by (simp add: graph_eval)

theorem scenario_A_witness:
  "distinct [1 :: node, 2, 3] \<and>
   (\<exists>s'. update (connect (Some 2) (Some 3) (connect (Some 1) (Some 2) emptyGraph)) = Inr s'
           \<and> Some 1 \<in> set (m_referencedNodes s')
           \<and> Some 2 \<in> set (m_referencedNodes s')
           \<and> m_connectionRefCount s' 1 = 1
           \<and> m_connectionRefCount s' 2 = 2)"
  using scenario_A [of 1 2 3] by simp

text \<open>
  C5. The claim is that one \<open>update\<close> drains both queues and applies every submitted
  connect and disconnect request in order. \<open>disconnect(from)\<close> queues the node as \<open>from\<close>
  with an empty \<open>to\<close>, while \<open>update\<close> takes its one-node branch only for an empty \<open>from\<close>:
  the request runs the two-node branch, which dereferences the empty \<open>to\<close>, and \<open>update\<close>
  does not complete.
\<close>

theorem update_disconnect_node_null_dereference:
  "update (disconnect_node (Some 1) emptyGraph) = Inl NullDereference"
  by (simp add: graph_eval)

subsection \<open>Connecting the same edge twice\<close>

lemma connectNodes_wired:
  "((f, 0), (t, 0)) \<in> edges (connectNodes f t x)"
  "outputsEnabled (connectNodes f t x) f"
  "outputsEnabled (connectNodes f t x) t"
  by (simp_all add: connectNodes_def Let_def frame AudioNodeInput_connect_def)

lemma connectNodes_again:
  assumes "((f, 0), (t, 0)) \<in> edges y" and "outputsEnabled y f" and "outputsEnabled y t"
  shows "connectNodes f t y
       = atomicIncrement t (atomicIncrement f (refNode (Some t) (refNode (Some f) y)))"
proof -
  have 1: "AudioNodeInput_connect (Some (t, 0)) (Some (f, 0)) y = y"
    using assms(1) by (simp add: AudioNodeInput_connect_def)
  have 2: "enableOutputsIfNecessary n z = z" if "outputsEnabled z n" for n and z :: graph
    using that by (simp add: enableOutputsIfNecessary_def fun_upd_idem)
  show ?thesis
    using assms(2,3) by (simp add: connectNodes_def Let_def 1 2 frame)
qed

lemma clear_empty_queue:
  "pendingNodeConnections (x :: graph) = [] \<Longrightarrow> x\<lparr>pendingNodeConnections := []\<rparr> = x"
  by (metis AudioContext.update_convs(19) AudioContext.surjective)

text \<open>
  C1, as the code has it. The claim is that a second \<open>connect(from, to)\<close> changes
  nothing. \<open>update\<close> keeps no record of the edges it has applied: for two nodes that are
  not null, and a queue that applies without a fault, the second request runs the
  connect branch again. Before the harvest of finished nodes that ends \<open>update\<close>, the
  state after two submissions is the state after one with the connection reference
  count of each endpoint incremented once more and both endpoints appended once more
  to \<open>m_referencedNodes\<close>; nothing else differs, the junction edges included.
\<close>

theorem connect_twice_applies_twice:
  assumes "drainPending (connect (Some f) (Some t) s) = Inr d"
  shows "update (connect (Some f) (Some t) s) = Inr (derefFinishedSourceNodes d)
       \<and> update (connect (Some f) (Some t) (connect (Some f) (Some t) s))
           = Inr (derefFinishedSourceNodes
                    (atomicIncrement t (atomicIncrement f
                       (refNode (Some t) (refNode (Some f) d)))))"
proof -
  let ?i = "\<lparr>nc_from = Some f, nc_to = Some t, nc_connect = True\<rparr>"
  have c: "connect (Some f) (Some t) c
         = c\<lparr>pendingNodeConnections := pendingNodeConnections c @ [?i]\<rparr>" for c :: graph
    by (simp add: connect_def)
  have a: "applyPendingNodeConnection ?i x = Inr (connectNodes f t x)" for x
    by (simp add: applyPendingNodeConnection_def)
  from assms obtain d0 where d0: "drainPending s = Inr d0"
    and d: "d = (connectNodes f t d0)\<lparr>pendingNodeConnections := []\<rparr>"
    by (auto simp: c drainPending_snoc a split: sum.splits)
  have q0: "pendingNodeConnections d0 = []"
    using d0 by (simp add: drainPending_frame)
  then have "pendingNodeConnections (connectNodes f t d0) = []"
    by (simp add: connectNodes_frame)
  then have d': "d = connectNodes f t d0"
    by (simp add: d clear_empty_queue)
  have once: "update (connect (Some f) (Some t) s) = Inr (derefFinishedSourceNodes d)"
    using assms by (simp add: update_def)
  have again: "connectNodes f t d
       = atomicIncrement t (atomicIncrement f (refNode (Some t) (refNode (Some f) d)))"
    unfolding d' by (rule connectNodes_again) (rule connectNodes_wired)+
  have "pendingNodeConnections (connectNodes f t d) = []"
    by (simp add: connectNodes_frame d' q0)
  then have "drainPending (connect (Some f) (Some t) (connect (Some f) (Some t) s))
           = Inr (connectNodes f t d)"
    using assms by (simp add: c [of "connect (Some f) (Some t) s"] drainPending_snoc a
        clear_empty_queue)
  then have twice: "update (connect (Some f) (Some t) (connect (Some f) (Some t) s))
           = Inr (derefFinishedSourceNodes (connectNodes f t d))"
    by (simp add: update_def)
  from once twice again show ?thesis by simp
qed

text \<open>The witness: nodes 1 and 2 on the empty graph.\<close>

theorem connect_twice_applies_twice_witness:
  "drainPending (connect (Some 1) (Some 2) emptyGraph) = Inr (connectNodes 1 2 emptyGraph)
   \<and> update (connect (Some 1) (Some 2) emptyGraph)
       = Inr (derefFinishedSourceNodes (connectNodes 1 2 emptyGraph))
   \<and> update (connect (Some 1) (Some 2) (connect (Some 1) (Some 2) emptyGraph))
       = Inr (derefFinishedSourceNodes
                (atomicIncrement 2 (atomicIncrement 1
                   (refNode (Some 2) (refNode (Some 1) (connectNodes 1 2 emptyGraph))))))"
proof -
  have h: "drainPending (connect (Some 1) (Some 2) emptyGraph)
         = Inr (connectNodes 1 2 emptyGraph)"
    by (simp add: graph_eval)
  from h connect_twice_applies_twice [OF h] show ?thesis by simp
qed

text \<open>
  C1 as stated fails: on the empty graph, connecting node 1 to node 2 twice does not give
  the state that connecting them once gives.
\<close>

theorem connect_twice_counterexample:
  "update (connect (Some 1) (Some 2) (connect (Some 1) (Some 2) emptyGraph))
     \<noteq> update (connect (Some 1) (Some 2) emptyGraph)"
proof
  assume "update (connect (Some 1) (Some 2) (connect (Some 1) (Some 2) emptyGraph))
     = update (connect (Some 1) (Some 2) emptyGraph)"
  then have "map_sum id m_referencedNodes
        (update (connect (Some 1) (Some 2) (connect (Some 1) (Some 2) emptyGraph)))
     = map_sum id m_referencedNodes (update (connect (Some 1) (Some 2) emptyGraph))"
    by simp
  then show False by (simp add: graph_eval)
qed

text \<open>What differs there: the counts are 2 instead of 1, the reference list is twice as long.\<close>

lemma connect_twice_counts:
  "\<exists>s1 s2. update (connect (Some 1) (Some 2) emptyGraph) = Inr s1
     \<and> update (connect (Some 1) (Some 2) (connect (Some 1) (Some 2) emptyGraph)) = Inr s2
     \<and> m_connectionRefCount s1 1 = 1 \<and> m_connectionRefCount s2 1 = 2
     \<and> m_connectionRefCount s1 2 = 1 \<and> m_connectionRefCount s2 2 = 2
     \<and> m_referencedNodes s1 = [Some 1, Some 2]
     \<and> m_referencedNodes s2 = [Some 1, Some 2, Some 1, Some 2]
     \<and> edges s1 = edges s2"
  by (simp add: graph_eval)

subsection \<open>Disconnecting an edge that does not exist\<close>

text \<open>
  C3, as the code has it. The claim is that disconnecting an edge that does not exist
  changes nothing. \<open>update\<close> does not look the edge up: for two nodes that are not null,
  and a queue that applies without a fault, \<open>disconnect(from, to)\<close> is applied without an
  error, and before the harvest of finished nodes the connection reference count of
  each endpoint is one lower and the first entry for \<open>from\<close>, then the first entry for
  \<open>to\<close>, is erased from \<open>m_referencedNodes\<close>, whether the edge exists or not.
\<close>

theorem disconnect_absent_edge_decrements:
  assumes "drainPending s = Inr d"
  shows "\<exists>d'. drainPending (disconnect (Some f) (Some t) s) = Inr d'
           \<and> update (disconnect (Some f) (Some t) s) = Inr (derefFinishedSourceNodes d')
           \<and> m_connectionRefCount d'
               = m_connectionRefCount (atomicDecrement t (atomicDecrement f d))
           \<and> m_referencedNodes d'
               = remove1 (Some t) (remove1 (Some f) (m_referencedNodes d))"
proof -
  let ?i = "\<lparr>nc_from = Some f, nc_to = Some t, nc_connect = False\<rparr>"
  have c: "disconnect (Some f) (Some t) s
         = s\<lparr>pendingNodeConnections := pendingNodeConnections s @ [?i]\<rparr>"
    by (simp add: disconnect_def)
  have a: "applyPendingNodeConnection ?i x = Inr (disconnectNodes f t x)" for x
    by (simp add: applyPendingNodeConnection_def)
  have "pendingNodeConnections (disconnectNodes f t d) = []"
    using assms by (simp add: disconnectNodes_frame drainPending_frame)
  then have dr: "drainPending (disconnect (Some f) (Some t) s) = Inr (disconnectNodes f t d)"
    using assms by (simp add: c drainPending_snoc a clear_empty_queue)
  then have "update (disconnect (Some f) (Some t) s)
           = Inr (derefFinishedSourceNodes (disconnectNodes f t d))"
    by (simp add: update_def)
  with dr show ?thesis by (simp add: disconnectNodes_frame)
qed

text \<open>The witness: nodes 1 and 2 on the empty graph, whose counts go from 0 to -1.\<close>

theorem disconnect_absent_edge_decrements_witness:
  "drainPending emptyGraph = Inr emptyGraph
   \<and> (\<exists>d'. drainPending (disconnect (Some 1) (Some 2) emptyGraph) = Inr d'
           \<and> update (disconnect (Some 1) (Some 2) emptyGraph) = Inr (derefFinishedSourceNodes d')
           \<and> m_connectionRefCount d' 1 = - 1 \<and> m_connectionRefCount d' 2 = - 1
           \<and> m_referencedNodes d' = [])"
proof -
  have h: "drainPending emptyGraph = Inr emptyGraph"
    by (simp add: graph_eval)
  from disconnect_absent_edge_decrements [OF h, of 1 2] obtain d'
    where "drainPending (disconnect (Some 1) (Some 2) emptyGraph) = Inr d'"
      and "update (disconnect (Some 1) (Some 2) emptyGraph) = Inr (derefFinishedSourceNodes d')"
      and "m_connectionRefCount d'
               = m_connectionRefCount (atomicDecrement 2 (atomicDecrement 1 emptyGraph))"
      and "m_referencedNodes d'
               = remove1 (Some 2) (remove1 (Some 1) (m_referencedNodes emptyGraph))"
    by blast
  with h show ?thesis
    by (simp add: atomicDecrement_frame emptyGraph_def newAudioContext_def
        AudioContext.defs graph.defs)
qed

text \<open>
  C3 as stated fails: the empty graph has no edge and \<open>update\<close> alone returns it as it
  is, but \<open>update\<close> after \<open>disconnect(1, 2)\<close> returns another state.
\<close>

theorem disconnect_absent_edge_counterexample:
  "((1, 0), (2, 0)) \<notin> edges emptyGraph
   \<and> update emptyGraph = Inr emptyGraph
   \<and> update (disconnect (Some 1) (Some 2) emptyGraph) \<noteq> Inr emptyGraph"
proof -
  have "map_sum id (\<lambda>x. m_connectionRefCount x 1)
          (update (disconnect (Some 1) (Some 2) emptyGraph))
      \<noteq> map_sum id (\<lambda>x. m_connectionRefCount x 1) (Inr emptyGraph)"
    by (simp add: graph_eval)
  then have "update (disconnect (Some 1) (Some 2) emptyGraph) \<noteq> Inr emptyGraph"
    by auto
  then show ?thesis by (simp add: graph_eval)
qed

subsection \<open>Who rebuilds the automatic pull snapshot\<close>

lemma updateAutomaticPullNodes_snapshot:
  "m_renderingAutomaticPullNodes (updateAutomaticPullNodes c)
     = (if m_automaticPullNodesNeedUpdating c
        then sorted_list_of_set (m_automaticPullNodes c)
        else m_renderingAutomaticPullNodes c)"
  "\<not> m_automaticPullNodesNeedUpdating (updateAutomaticPullNodes c)"
  by (simp_all add: updateAutomaticPullNodes_def)

text \<open>
  C4, as the code has it. The claim is that only \<open>update\<close> rebuilds the snapshot and that
  the render hooks leave it alone. It is the other way round: \<open>update\<close> leaves
  \<open>m_renderingAutomaticPullNodes\<close> and the dirty flag as they are, and both render hooks
  call \<open>updateAutomaticPullNodes\<close>, which, when the flag is set, replaces the snapshot by
  the contents of the write-side set and clears the flag, and otherwise changes neither.
\<close>

theorem snapshot_rebuilt_by_render_hooks:
  "m_renderingAutomaticPullNodes (handlePreRenderTasks s)
     = (if m_automaticPullNodesNeedUpdating s
        then sorted_list_of_set (m_automaticPullNodes s)
        else m_renderingAutomaticPullNodes s)
   \<and> \<not> m_automaticPullNodesNeedUpdating (handlePreRenderTasks s)
   \<and> (handlePostRenderTasks r_context s = Inr s' \<longrightarrow>
        m_renderingAutomaticPullNodes s'
          = (if m_automaticPullNodesNeedUpdating s
             then sorted_list_of_set (m_automaticPullNodes s)
             else m_renderingAutomaticPullNodes s)
        \<and> \<not> m_automaticPullNodesNeedUpdating s')
   \<and> (update s = Inr s'' \<longrightarrow>
        m_renderingAutomaticPullNodes s'' = m_renderingAutomaticPullNodes s
        \<and> m_automaticPullNodesNeedUpdating s'' = m_automaticPullNodesNeedUpdating s)"
proof -
  have pre: "m_renderingAutomaticPullNodes (handlePreRenderTasks s)
     = (if m_automaticPullNodesNeedUpdating s
        then sorted_list_of_set (m_automaticPullNodes s)
        else m_renderingAutomaticPullNodes s)"
    "\<not> m_automaticPullNodesNeedUpdating (handlePreRenderTasks s)"
    by (simp_all add: handlePreRenderTasks_def updateAutomaticPullNodes_def
        handleDirtyAudioSummingJunctions_def)
  have post: "m_renderingAutomaticPullNodes s'
          = (if m_automaticPullNodesNeedUpdating s
             then sorted_list_of_set (m_automaticPullNodes s)
             else m_renderingAutomaticPullNodes s)
        \<and> \<not> m_automaticPullNodesNeedUpdating s'"
    if "handlePostRenderTasks r_context s = Inr s'"
    using that
    by (auto simp: handlePostRenderTasks_def handleAutomaticSources_def
        updateAutomaticPullNodes_def handleDirtyAudioSummingJunctions_def
        scheduleNodeDeletion_def split: sum.splits if_splits)
  from pre post update_frame [of s s''] show ?thesis by blast
qed

text \<open>The witness: the empty graph after \<open>addAutomaticPullNode\<close> of node 1.\<close>

theorem snapshot_rebuilt_by_render_hooks_witness:
  "m_renderingAutomaticPullNodes (handlePreRenderTasks (addAutomaticPullNode (Some 1) emptyGraph))
     = [Some 1]
   \<and> \<not> m_automaticPullNodesNeedUpdating
         (handlePreRenderTasks (addAutomaticPullNode (Some 1) emptyGraph))
   \<and> handlePostRenderTasks True (addAutomaticPullNode (Some 1) emptyGraph)
       = Inr (handlePreRenderTasks (addAutomaticPullNode (Some 1) emptyGraph))
   \<and> update (addAutomaticPullNode (Some 1) emptyGraph)
       = Inr (addAutomaticPullNode (Some 1) emptyGraph)
   \<and> m_renderingAutomaticPullNodes (addAutomaticPullNode (Some 1) emptyGraph) = []
   \<and> m_automaticPullNodesNeedUpdating (addAutomaticPullNode (Some 1) emptyGraph)"
  using snapshot_rebuilt_by_render_hooks [of "addAutomaticPullNode (Some 1) emptyGraph" True
      "handlePreRenderTasks (addAutomaticPullNode (Some 1) emptyGraph)"
      "addAutomaticPullNode (Some 1) emptyGraph"]
  by (simp add: graph_eval addAutomaticPullNode_def handlePreRenderTasks_def
      handlePostRenderTasks_def handleAutomaticSources_def updateAutomaticPullNodes_def
      handleDirtyAudioSummingJunctions_def scheduleNodeDeletion_def)

text \<open>
  C4 as stated fails: after \<open>addAutomaticPullNode\<close> of node 1, \<open>handlePreRenderTasks\<close>
  changes both the snapshot and the dirty flag.
\<close>

theorem render_hook_rebuilds_snapshot_counterexample:
  "m_renderingAutomaticPullNodes (handlePreRenderTasks (addAutomaticPullNode (Some 1) emptyGraph))
     \<noteq> m_renderingAutomaticPullNodes (addAutomaticPullNode (Some 1) emptyGraph)
   \<and> m_automaticPullNodesNeedUpdating (handlePreRenderTasks (addAutomaticPullNode (Some 1) emptyGraph))
     \<noteq> m_automaticPullNodesNeedUpdating (addAutomaticPullNode (Some 1) emptyGraph)"
  by (simp add: graph_eval addAutomaticPullNode_def handlePreRenderTasks_def
      updateAutomaticPullNodes_def handleDirtyAudioSummingJunctions_def)

subsection \<open>The invariant on the reference list\<close>

lemma count_list_remove1:
  "count_list (remove1 x xs) y = (if x = y then count_list xs y - 1 else count_list xs y)"
  by (induction xs) auto

lemma sint_decrement:
  fixes c :: "32 word"
  assumes "sint c \<noteq> - (2 ^ 31)"
  shows "sint (c - 1) = sint c - 1"
proof -
  have lo: "- (2 ^ 31) \<le> sint c" and hi: "sint c < 2 ^ 31"
    using sint_ge [of c] sint_lt [of c] by simp_all
  have "sint (c - 1) = signed_take_bit 31 (sint c - 1)"
    by (simp add: sint_word_ariths)
  also have "\<dots> = sint c - 1"
    using lo hi assms by (intro signed_take_bit_int_eq_self) simp_all
  finally show ?thesis .
qed

lemma sint_increment_le:
  fixes c :: "32 word"
  shows "sint (c + 1) \<le> sint c + 1"
proof (cases "sint c + 1 < 2 ^ 31")
  case True
  have lo: "- (2 ^ 31) \<le> sint c"
    using sint_ge [of c] by simp
  have "sint (c + 1) = signed_take_bit 31 (sint c + 1)"
    by (simp add: sint_word_ariths)
  also have "\<dots> = sint c + 1"
    using lo True by (intro signed_take_bit_int_eq_self) simp_all
  finally show ?thesis by simp
next
  case False
  moreover have "sint (c + 1) < 2 ^ 31"
    using sint_lt [of "c + 1"] by simp
  ultimately show ?thesis by simp
qed

lemma countInvariant_refInvariant:
  assumes "countInvariant s"
  shows "refInvariant s"
  unfolding refInvariant_def
proof (intro allI impI)
  fix n
  assume pos: "0 < sint (m_connectionRefCount s n)"
  have "sint (m_connectionRefCount s n) \<le> int (count_list (m_referencedNodes s) (Some n))"
    using assms by (simp add: countInvariant_def)
  with pos have "count_list (m_referencedNodes s) (Some n) \<noteq> 0"
    by auto
  then show "Some n \<in> set (m_referencedNodes s)"
    by (simp add: count_list_0_iff)
qed

lemma countInvariant_connectNodes:
  assumes "countInvariant s"
  shows "countInvariant (connectNodes f t s)"
  unfolding countInvariant_def
proof
  fix n
  have b: "sint (m_connectionRefCount s n) \<le> int (count_list (m_referencedNodes s) (Some n))"
    using assms by (simp add: countInvariant_def)
  have i1: "sint (m_connectionRefCount s n + 1) \<le> sint (m_connectionRefCount s n) + 1"
    by (rule sint_increment_le)
  have i2: "sint (m_connectionRefCount s n + 1 + 1) \<le> sint (m_connectionRefCount s n + 1) + 1"
    by (rule sint_increment_le)
  show "sint (m_connectionRefCount (connectNodes f t s) n)
      \<le> int (count_list (m_referencedNodes (connectNodes f t s)) (Some n))"
    using b i1 i2 by (auto simp: connectNodes_frame atomicIncrement_frame)
qed

lemma countInvariant_disconnectAllOf:
  assumes "countInvariant s" and "sint (m_connectionRefCount s t) \<noteq> - (2 ^ 31)"
  shows "countInvariant (disconnectAllOf t s)"
  unfolding countInvariant_def
proof
  fix n
  have b: "sint (m_connectionRefCount s n) \<le> int (count_list (m_referencedNodes s) (Some n))"
    using assms(1) by (simp add: countInvariant_def)
  show "sint (m_connectionRefCount (disconnectAllOf t s) n)
      \<le> int (count_list (m_referencedNodes (disconnectAllOf t s)) (Some n))"
    using b assms(2)
    by (auto simp: disconnectAllOf_frame atomicDecrement_frame sint_decrement)
qed

lemma refInvariant_connectNodes:
  "refInvariant s \<Longrightarrow> refInvariant (connectNodes f t s)"
  by (auto simp: refInvariant_def connectNodes_frame atomicIncrement_frame)

lemma in_set_count_list: "x \<in> set xs \<longleftrightarrow> 0 < count_list xs x"
  using count_list_0_iff [of xs x] by auto

lemma count_list_fold_remove1:
  "count_list (fold remove1 ns xs) y = count_list xs y - count_list ns y"
  by (induction ns arbitrary: xs) (auto simp: count_list_remove1)

lemma countInvariant_disconnectNodes_nowrap:
  assumes "countInvariant s"
    and "sint (m_connectionRefCount s f) \<noteq> - (2 ^ 31)"
    and "sint (m_connectionRefCount (atomicDecrement f s) t) \<noteq> - (2 ^ 31)"
  shows "countInvariant (disconnectNodes f t s)"
  unfolding countInvariant_def
proof
  fix n
  have b: "sint (m_connectionRefCount s n) \<le> int (count_list (m_referencedNodes s) (Some n))"
    using assms(1) by (simp add: countInvariant_def)
  have f1: "sint (m_connectionRefCount s f - 1) = sint (m_connectionRefCount s f) - 1"
    using assms(2) by (rule sint_decrement)
  have t1: "sint (m_connectionRefCount s t - 1) = sint (m_connectionRefCount s t) - 1"
    if "f \<noteq> t"
    using assms(3) that by (intro sint_decrement) (simp add: atomicDecrement_frame)
  have t2: "sint (m_connectionRefCount s t - 1 - 1) = sint (m_connectionRefCount s t) - 2"
    if "f = t"
  proof -
    from assms(3) that have "sint (m_connectionRefCount s t - 1) \<noteq> - (2 ^ 31)"
      by (simp add: atomicDecrement_frame)
    then have "sint (m_connectionRefCount s t - 1 - 1) = sint (m_connectionRefCount s t - 1) - 1"
      by (rule sint_decrement)
    with f1 that show ?thesis by simp
  qed
  show "sint (m_connectionRefCount (disconnectNodes f t s) n)
      \<le> int (count_list (m_referencedNodes (disconnectNodes f t s)) (Some n))"
    using b f1 t1 t2
    by (auto simp: disconnectNodes_frame atomicDecrement_frame count_list_remove1)
qed

lemma refInvariant_disconnectAllOf:
  assumes "refInvariant s" and "sint (m_connectionRefCount s t) \<noteq> - (2 ^ 31)"
  shows "refInvariant (disconnectAllOf t s)"
  unfolding refInvariant_def
proof (intro allI impI)
  fix n
  assume pos: "0 < sint (m_connectionRefCount (disconnectAllOf t s) n)"
  have "0 < sint (m_connectionRefCount s n)"
  proof (cases "n = t")
    case True
    with pos assms(2) show ?thesis
      by (simp add: disconnectAllOf_frame atomicDecrement_frame sint_decrement)
  next
    case False
    with pos show ?thesis
      by (simp add: disconnectAllOf_frame atomicDecrement_frame)
  qed
  with assms(1) show "Some n \<in> set (m_referencedNodes (disconnectAllOf t s))"
    by (simp add: refInvariant_def disconnectAllOf_frame)
qed

lemma refInvariant_derefNode_iff:
  assumes "refInvariant s"
  shows "refInvariant (derefNode node s)
       \<longleftrightarrow> (\<forall>k. node = Some k \<and> 0 < sint (m_connectionRefCount s k)
                  \<longrightarrow> 2 \<le> count_list (m_referencedNodes s) (Some k))"
proof
  assume after: "refInvariant (derefNode node s)"
  show "\<forall>k. node = Some k \<and> 0 < sint (m_connectionRefCount s k)
                  \<longrightarrow> 2 \<le> count_list (m_referencedNodes s) (Some k)"
  proof (intro allI impI)
    fix k
    assume k: "node = Some k \<and> 0 < sint (m_connectionRefCount s k)"
    with after have "Some k \<in> set (remove1 (Some k) (m_referencedNodes s))"
      by (simp add: refInvariant_def derefNode_frame derefNode_graph_frame)
    then have "0 < count_list (remove1 (Some k) (m_referencedNodes s)) (Some k)"
      by (simp add: in_set_count_list)
    then show "2 \<le> count_list (m_referencedNodes s) (Some k)"
      by (simp add: count_list_remove1)
  qed
next
  assume c: "\<forall>k. node = Some k \<and> 0 < sint (m_connectionRefCount s k)
                  \<longrightarrow> 2 \<le> count_list (m_referencedNodes s) (Some k)"
  show "refInvariant (derefNode node s)"
    unfolding refInvariant_def
  proof (intro allI impI)
    fix n
    assume "0 < sint (m_connectionRefCount (derefNode node s) n)"
    then have pos: "0 < sint (m_connectionRefCount s n)"
      by (simp add: derefNode_graph_frame)
    with assms have "0 < count_list (m_referencedNodes s) (Some n)"
      by (simp add: refInvariant_def in_set_count_list)
    moreover have "2 \<le> count_list (m_referencedNodes s) (Some n)" if "node = Some n"
      using c that pos by simp
    ultimately have "0 < count_list (remove1 node (m_referencedNodes s)) (Some n)"
      by (auto simp: count_list_remove1)
    then show "Some n \<in> set (m_referencedNodes (derefNode node s))"
      by (simp add: derefNode_frame in_set_count_list)
  qed
qed

lemma refInvariant_erase_iff:
  fixes s s' :: graph
  assumes inv: "refInvariant s"
    and refs: "m_referencedNodes s' = fold remove1 ns (m_referencedNodes s)"
    and same: "\<And>k. Some k \<notin> set ns \<Longrightarrow> m_connectionRefCount s' k = m_connectionRefCount s k"
  shows "refInvariant s'
       \<longleftrightarrow> (\<forall>k. Some k \<in> set ns \<and> 0 < sint (m_connectionRefCount s' k)
                  \<longrightarrow> count_list ns (Some k) < count_list (m_referencedNodes s) (Some k))"
proof
  assume after: "refInvariant s'"
  show "\<forall>k. Some k \<in> set ns \<and> 0 < sint (m_connectionRefCount s' k)
                  \<longrightarrow> count_list ns (Some k) < count_list (m_referencedNodes s) (Some k)"
  proof (intro allI impI)
    fix k
    assume "Some k \<in> set ns \<and> 0 < sint (m_connectionRefCount s' k)"
    with after have "0 < count_list (m_referencedNodes s') (Some k)"
      by (simp add: refInvariant_def in_set_count_list)
    then show "count_list ns (Some k) < count_list (m_referencedNodes s) (Some k)"
      by (simp add: refs count_list_fold_remove1)
  qed
next
  assume c: "\<forall>k. Some k \<in> set ns \<and> 0 < sint (m_connectionRefCount s' k)
                  \<longrightarrow> count_list ns (Some k) < count_list (m_referencedNodes s) (Some k)"
  show "refInvariant s'"
    unfolding refInvariant_def
  proof (intro allI impI)
    fix n
    assume pos: "0 < sint (m_connectionRefCount s' n)"
    have "count_list ns (Some n) < count_list (m_referencedNodes s) (Some n)"
    proof (cases "Some n \<in> set ns")
      case True
      with c pos show ?thesis by simp
    next
      case False
      with pos same have "0 < sint (m_connectionRefCount s n)" by simp
      with inv have "0 < count_list (m_referencedNodes s) (Some n)"
        by (simp add: refInvariant_def in_set_count_list)
      with False show ?thesis by (simp add: count_list_0_iff)
    qed
    then show "Some n \<in> set (m_referencedNodes s')"
      by (simp add: refs in_set_count_list count_list_fold_remove1)
  qed
qed

lemma refInvariant_derefFinishedSourceNodes_iff:
  assumes "refInvariant s"
  shows "refInvariant (derefFinishedSourceNodes s)
       \<longleftrightarrow> (\<forall>k. Some k \<in> set (m_finishedNodes s) \<and> 0 < sint (m_connectionRefCount s k)
                  \<longrightarrow> count_list (m_finishedNodes s) (Some k)
                        < count_list (m_referencedNodes s) (Some k))"
  using refInvariant_erase_iff [OF assms, of "derefFinishedSourceNodes s" "m_finishedNodes s"]
  by (simp add: derefFinishedSourceNodes_frame derefFinishedSourceNodes_graph_frame)

lemma refInvariant_disconnectNodes_iff:
  assumes "refInvariant s"
  shows "refInvariant (disconnectNodes f t s)
       \<longleftrightarrow> (\<forall>k. (k = f \<or> k = t) \<and> 0 < sint (m_connectionRefCount (disconnectNodes f t s) k)
                  \<longrightarrow> count_list [Some f, Some t] (Some k)
                        < count_list (m_referencedNodes s) (Some k))"
proof -
  have "refInvariant (disconnectNodes f t s)
       \<longleftrightarrow> (\<forall>k. Some k \<in> set [Some f, Some t]
                    \<and> 0 < sint (m_connectionRefCount (disconnectNodes f t s) k)
                  \<longrightarrow> count_list [Some f, Some t] (Some k)
                        < count_list (m_referencedNodes s) (Some k))"
    by (rule refInvariant_erase_iff [OF assms])
      (simp_all add: disconnectNodes_frame atomicDecrement_frame)
  then show ?thesis by simp
qed

text \<open>
  C2, as the code has it. The claim is that every operation keeps each node with a
  positive connection reference count in the reference list. The connect branch of
  \<open>update\<close> does, and so does the one-node disconnect branch whenever its decrement does
  not wrap around from the least \<open>int\<close>. The operations that erase entries do not read
  the count. Starting from a state with the invariant, the two-node disconnect branch
  gives a state with the invariant exactly when each endpoint whose count is still
  positive has more entries in \<open>m_referencedNodes\<close> than the request names it;
  \<open>derefNode\<close> exactly when its node is null, or has a count that is not positive, or
  has at least two entries; \<open>derefFinishedSourceNodes\<close> exactly when every finished node
  with a positive count has more entries in \<open>m_referencedNodes\<close> than in
  \<open>m_finishedNodes\<close>. What the branches of \<open>update\<close> maintain is the counted form, the
  count of a node is at most the number of its entries, which implies the invariant:
  the connect branch keeps it always, each disconnect branch whenever none of its
  decrements wraps around from the least \<open>int\<close>.
\<close>

theorem reference_invariant_as_maintained:
  "(countInvariant s \<longrightarrow> refInvariant s)
   \<and> (nc_connect i \<and> applyPendingNodeConnection i s = Inr s'
        \<longrightarrow> (refInvariant s \<longrightarrow> refInvariant s') \<and> (countInvariant s \<longrightarrow> countInvariant s'))
   \<and> (\<not> nc_connect i \<and> nc_from i = None \<and> nc_to i = Some t
        \<and> applyPendingNodeConnection i s = Inr s'
        \<and> sint (m_connectionRefCount s t) \<noteq> - (2 ^ 31)
        \<longrightarrow> (refInvariant s \<longrightarrow> refInvariant s') \<and> (countInvariant s \<longrightarrow> countInvariant s'))
   \<and> (\<not> nc_connect i \<and> nc_from i = Some f \<and> nc_to i = Some t
        \<and> applyPendingNodeConnection i s = Inr s'
        \<longrightarrow> (countInvariant s \<and> sint (m_connectionRefCount s f) \<noteq> - (2 ^ 31)
               \<and> sint (m_connectionRefCount (atomicDecrement f s) t) \<noteq> - (2 ^ 31)
              \<longrightarrow> countInvariant s')
          \<and> (refInvariant s
              \<longrightarrow> (refInvariant s'
                   \<longleftrightarrow> (\<forall>k. (k = f \<or> k = t) \<and> 0 < sint (m_connectionRefCount s' k)
                            \<longrightarrow> count_list [Some f, Some t] (Some k)
                                  < count_list (m_referencedNodes s) (Some k)))))
   \<and> (refInvariant s
        \<longrightarrow> (refInvariant (derefNode node s)
             \<longleftrightarrow> (\<forall>k. node = Some k \<and> 0 < sint (m_connectionRefCount s k)
                      \<longrightarrow> 2 \<le> count_list (m_referencedNodes s) (Some k))))
   \<and> (refInvariant s
        \<longrightarrow> (refInvariant (derefFinishedSourceNodes s)
             \<longleftrightarrow> (\<forall>k. Some k \<in> set (m_finishedNodes s) \<and> 0 < sint (m_connectionRefCount s k)
                      \<longrightarrow> count_list (m_finishedNodes s) (Some k)
                            < count_list (m_referencedNodes s) (Some k))))"
proof -
  have c1: "countInvariant s \<longrightarrow> refInvariant s"
    by (simp add: countInvariant_refInvariant)
  have c2: "nc_connect i \<and> applyPendingNodeConnection i s = Inr s'
        \<longrightarrow> (refInvariant s \<longrightarrow> refInvariant s') \<and> (countInvariant s \<longrightarrow> countInvariant s')"
    by (auto simp: applyPendingNodeConnection_def refInvariant_connectNodes
        countInvariant_connectNodes split: option.splits)
  have c3: "\<not> nc_connect i \<and> nc_from i = None \<and> nc_to i = Some t
        \<and> applyPendingNodeConnection i s = Inr s'
        \<and> sint (m_connectionRefCount s t) \<noteq> - (2 ^ 31)
        \<longrightarrow> (refInvariant s \<longrightarrow> refInvariant s') \<and> (countInvariant s \<longrightarrow> countInvariant s')"
    by (auto simp: applyPendingNodeConnection_def refInvariant_disconnectAllOf
        countInvariant_disconnectAllOf)
  have c4: "\<not> nc_connect i \<and> nc_from i = Some f \<and> nc_to i = Some t
        \<and> applyPendingNodeConnection i s = Inr s'
        \<longrightarrow> (countInvariant s \<and> sint (m_connectionRefCount s f) \<noteq> - (2 ^ 31)
               \<and> sint (m_connectionRefCount (atomicDecrement f s) t) \<noteq> - (2 ^ 31)
              \<longrightarrow> countInvariant s')
          \<and> (refInvariant s
              \<longrightarrow> (refInvariant s'
                   \<longleftrightarrow> (\<forall>k. (k = f \<or> k = t) \<and> 0 < sint (m_connectionRefCount s' k)
                            \<longrightarrow> count_list [Some f, Some t] (Some k)
                                  < count_list (m_referencedNodes s) (Some k))))"
  proof (intro impI)
    assume a: "\<not> nc_connect i \<and> nc_from i = Some f \<and> nc_to i = Some t
        \<and> applyPendingNodeConnection i s = Inr s'"
    then have s': "s' = disconnectNodes f t s"
      by (auto simp: applyPendingNodeConnection_def)
    show "(countInvariant s \<and> sint (m_connectionRefCount s f) \<noteq> - (2 ^ 31)
               \<and> sint (m_connectionRefCount (atomicDecrement f s) t) \<noteq> - (2 ^ 31)
              \<longrightarrow> countInvariant s')
          \<and> (refInvariant s
              \<longrightarrow> (refInvariant s'
                   \<longleftrightarrow> (\<forall>k. (k = f \<or> k = t) \<and> 0 < sint (m_connectionRefCount s' k)
                            \<longrightarrow> count_list [Some f, Some t] (Some k)
                                  < count_list (m_referencedNodes s) (Some k))))"
      unfolding s'
      using countInvariant_disconnectNodes_nowrap [of s f t]
        refInvariant_disconnectNodes_iff [of s f t]
      by blast
  qed
  have c5: "refInvariant s
        \<longrightarrow> (refInvariant (derefNode node s)
             \<longleftrightarrow> (\<forall>k. node = Some k \<and> 0 < sint (m_connectionRefCount s k)
                      \<longrightarrow> 2 \<le> count_list (m_referencedNodes s) (Some k)))"
    using refInvariant_derefNode_iff [of s node] by blast
  have c6: "refInvariant s
        \<longrightarrow> (refInvariant (derefFinishedSourceNodes s)
             \<longleftrightarrow> (\<forall>k. Some k \<in> set (m_finishedNodes s) \<and> 0 < sint (m_connectionRefCount s k)
                      \<longrightarrow> count_list (m_finishedNodes s) (Some k)
                            < count_list (m_referencedNodes s) (Some k)))"
    using refInvariant_derefFinishedSourceNodes_iff [of s] by blast
  from c1 c2 c3 c4 c5 c6 show ?thesis by (intro conjI)
qed

text \<open>
  The witness: node 5 connected to nodes 7 and 9 on the empty graph, which leaves
  the list 5, 7, 5, 9 and the counts 2, 1 and 1. Every operation is run on that state;
  \<open>derefNode\<close> and the harvest keep the invariant for node 5, which has two entries, and
  lose it for node 7, which has one.
\<close>

theorem reference_invariant_as_maintained_witness:
  "countInvariant (connectNodes 5 9 (connectNodes 5 7 emptyGraph))
   \<and> refInvariant (connectNodes 5 9 (connectNodes 5 7 emptyGraph))
   \<and> countInvariant (disconnectAllOf 7 (connectNodes 5 9 (connectNodes 5 7 emptyGraph)))
   \<and> refInvariant (disconnectAllOf 7 (connectNodes 5 9 (connectNodes 5 7 emptyGraph)))
   \<and> countInvariant (disconnectNodes 5 7 (connectNodes 5 9 (connectNodes 5 7 emptyGraph)))
   \<and> refInvariant (disconnectNodes 5 7 (connectNodes 5 9 (connectNodes 5 7 emptyGraph)))
   \<and> m_referencedNodes (derefNode (Some 5) (connectNodes 5 9 (connectNodes 5 7 emptyGraph)))
       = [Some 7, Some 5, Some 9]
   \<and> refInvariant (derefNode (Some 5) (connectNodes 5 9 (connectNodes 5 7 emptyGraph)))
   \<and> \<not> refInvariant (derefNode (Some 7) (connectNodes 5 9 (connectNodes 5 7 emptyGraph)))
   \<and> refInvariant (derefFinishedSourceNodes
         (notifyNodeFinishedProcessing (Some 5)
            (connectNodes 5 9 (connectNodes 5 7 emptyGraph))))
   \<and> \<not> refInvariant (derefFinishedSourceNodes
         (notifyNodeFinishedProcessing (Some 7)
            (connectNodes 5 9 (connectNodes 5 7 emptyGraph))))"
proof -
  let ?c57 = "\<lparr>nc_from = Some 5, nc_to = Some 7, nc_connect = True\<rparr>"
  let ?c59 = "\<lparr>nc_from = Some 5, nc_to = Some 9, nc_connect = True\<rparr>"
  let ?d7 = "\<lparr>nc_from = None, nc_to = Some 7, nc_connect = False\<rparr>"
  let ?d57 = "\<lparr>nc_from = Some 5, nc_to = Some 7, nc_connect = False\<rparr>"
  let ?a = "connectNodes 5 7 emptyGraph"
  let ?s = "connectNodes 5 9 ?a"
  let ?w5 = "notifyNodeFinishedProcessing (Some 5) ?s"
  let ?w7 = "notifyNodeFinishedProcessing (Some 7) ?s"
  have z: "m_connectionRefCount emptyGraph = (\<lambda>_. 0)" "m_referencedNodes emptyGraph = []"
    "m_finishedNodes emptyGraph = []"
    by (simp_all add: emptyGraph_def newAudioContext_def AudioContext.defs graph.defs)
  have refs: "m_referencedNodes ?s = [Some 5, Some 7, Some 5, Some 9]"
    by (simp add: connectNodes_frame z)
  have cnt: "m_connectionRefCount ?s n
           = (if n = 9 then 1 else if n = 5 then 2 else if n = 7 then 1 else 0)" for n
    by (simp add: connectNodes_frame atomicIncrement_frame z)
  have e: "countInvariant emptyGraph"
    by (simp add: countInvariant_def z)
  have "applyPendingNodeConnection ?c57 emptyGraph = Inr ?a"
    by (simp add: applyPendingNodeConnection_def)
  with e have a: "countInvariant ?a"
    using reference_invariant_as_maintained
      [where s = emptyGraph and i = ?c57 and s' = ?a, THEN conjunct2, THEN conjunct1]
    by simp
  have "applyPendingNodeConnection ?c59 ?a = Inr ?s"
    by (simp add: applyPendingNodeConnection_def)
  with a have c: "countInvariant ?s"
    using reference_invariant_as_maintained
      [where s = ?a and i = ?c59 and s' = ?s, THEN conjunct2, THEN conjunct1]
    by simp
  then have r: "refInvariant ?s"
    using reference_invariant_as_maintained [where s = ?s, THEN conjunct1] by simp
  have "applyPendingNodeConnection ?d7 ?s = Inr (disconnectAllOf 7 ?s)"
    by (simp add: applyPendingNodeConnection_def)
  moreover have "sint (m_connectionRefCount ?s 7) \<noteq> - (2 ^ 31)"
    by (simp add: cnt)
  ultimately have one: "countInvariant (disconnectAllOf 7 ?s)" "refInvariant (disconnectAllOf 7 ?s)"
    using c r reference_invariant_as_maintained
      [where s = ?s and i = ?d7 and s' = "disconnectAllOf 7 ?s" and t = 7,
        THEN conjunct2, THEN conjunct2, THEN conjunct1]
    by simp_all
  have app: "applyPendingNodeConnection ?d57 ?s = Inr (disconnectNodes 5 7 ?s)"
    by (simp add: applyPendingNodeConnection_def)
  note two = reference_invariant_as_maintained
      [where s = ?s and i = ?d57 and s' = "disconnectNodes 5 7 ?s" and f = 5 and t = 7,
        THEN conjunct2, THEN conjunct2, THEN conjunct2, THEN conjunct1]
  have nw: "sint (m_connectionRefCount ?s 5) \<noteq> - (2 ^ 31)"
    "sint (m_connectionRefCount (atomicDecrement 5 ?s) 7) \<noteq> - (2 ^ 31)"
    by (simp_all add: cnt atomicDecrement_frame)
  have two_count: "countInvariant (disconnectNodes 5 7 ?s)"
    using two app c nw by simp
  have "\<forall>k. (k = 5 \<or> k = 7) \<and> 0 < sint (m_connectionRefCount (disconnectNodes 5 7 ?s) k)
          \<longrightarrow> count_list [Some 5, Some 7] (Some k) < count_list (m_referencedNodes ?s) (Some k)"
    by (auto simp: refs cnt disconnectNodes_frame atomicDecrement_frame)
  then have two_ref: "refInvariant (disconnectNodes 5 7 ?s)"
    using two app r by simp
  have erased: "m_referencedNodes (derefNode (Some 5) ?s) = [Some 7, Some 5, Some 9]"
    by (simp add: derefNode_frame refs)
  have n5: "refInvariant (derefNode (Some 5) ?s)"
    using reference_invariant_as_maintained
      [where s = ?s and node = "Some 5", THEN conjunct2, THEN conjunct2, THEN conjunct2,
        THEN conjunct2, THEN conjunct1] r
    by (simp add: refs cnt)
  have n7: "\<not> refInvariant (derefNode (Some 7) ?s)"
    using reference_invariant_as_maintained
      [where s = ?s and node = "Some 7", THEN conjunct2, THEN conjunct2, THEN conjunct2,
        THEN conjunct2, THEN conjunct1] r
    by (simp add: refs cnt)
  have w5: "m_connectionRefCount ?w5 = m_connectionRefCount ?s"
    "m_referencedNodes ?w5 = m_referencedNodes ?s" "m_finishedNodes ?w5 = [Some 5]"
    by (simp_all add: notifyNodeFinishedProcessing_def refs connectNodes_frame z)
  have w7: "m_connectionRefCount ?w7 = m_connectionRefCount ?s"
    "m_referencedNodes ?w7 = m_referencedNodes ?s" "m_finishedNodes ?w7 = [Some 7]"
    by (simp_all add: notifyNodeFinishedProcessing_def refs connectNodes_frame z)
  have r5: "refInvariant ?w5" and r7: "refInvariant ?w7"
    using r by (simp_all add: refInvariant_def w5 w7)
  have f5: "refInvariant (derefFinishedSourceNodes ?w5)"
    using reference_invariant_as_maintained
      [where s = ?w5, THEN conjunct2, THEN conjunct2, THEN conjunct2, THEN conjunct2,
        THEN conjunct2] r5
    by (simp add: w5 refs cnt)
  have f7: "\<not> refInvariant (derefFinishedSourceNodes ?w7)"
    using reference_invariant_as_maintained
      [where s = ?w7, THEN conjunct2, THEN conjunct2, THEN conjunct2, THEN conjunct2,
        THEN conjunct2] r7
    by (simp add: w7 refs cnt)
  from c r one two_count two_ref erased n5 n7 f5 f7 show ?thesis by simp
qed

text \<open>
  C2 as stated fails: with node 1 referenced once and its count at 1 the invariant
  holds, and \<open>derefNode\<close> of node 1 breaks it.
\<close>

theorem derefNode_breaks_refInvariant_counterexample:
  "refInvariant (atomicIncrement 1 (refNode (Some 1) emptyGraph))
   \<and> \<not> refInvariant (derefNode (Some 1) (atomicIncrement 1 (refNode (Some 1) emptyGraph)))"
  by (simp add: refInvariant_def graph_eval)

text \<open>
  The same through the interface: after \<open>connect(1, 2)\<close> and an \<open>update\<close>, node 1 reports
  that it has finished, and the next \<open>update\<close> drops it from the list with its count
  still 1. Where the counted form does not hold, the two-node disconnect branch breaks
  the invariant in the same way.
\<close>

lemma finished_node_leaves_reference_list:
  "\<exists>a c. update (connect (Some 1) (Some 2) emptyGraph) = Inr a
     \<and> refInvariant a
     \<and> refInvariant (notifyNodeFinishedProcessing (Some 1) a)
     \<and> update (notifyNodeFinishedProcessing (Some 1) a) = Inr c
     \<and> m_connectionRefCount c 1 = 1
     \<and> m_referencedNodes c = [Some 2]
     \<and> \<not> refInvariant c"
  by (simp add: refInvariant_def graph_eval notifyNodeFinishedProcessing_def)

lemma disconnect_breaks_refInvariant:
  "refInvariant (atomicIncrement 1 (connectNodes 1 2 emptyGraph))
   \<and> \<not> refInvariant (disconnectNodes 1 2 (atomicIncrement 1 (connectNodes 1 2 emptyGraph)))"
  by (simp add: refInvariant_def graph_eval)

end
